theory Spec2Isabelle
  imports Main "HOL-Library.Word"
begin

unbundle bit_operations_syntax

section \<open>Machine types and layout constants\<close>

text \<open>
  The code is written for an LP64 target: \<open>size_t\<close> and \<open>uint64_t\<close> are 64-bit words whose
  arithmetic wraps around, \<open>uint32_t\<close> and \<open>uint16_t\<close> are 32-bit and 16-bit words.
  Bytes in shared memory and in caller buffers are 8-bit words; a region of memory is the
  list of its bytes.
\<close>

type_synonym u8 = "8 word"
type_synonym u16 = "16 word"
type_synonym u32 = "32 word"
type_synonym u64 = "64 word"
type_synonym size_t = "64 word"

text \<open>common/error.hpp: \<open>enum class ErrorCode\<close>; \<open>Result<void>\<close> is an \<open>ErrorCode\<close>
  (\<open>Success\<close> when ok), \<open>Result<T>\<close> is \<open>ErrorCode + T\<close>.\<close>

datatype ErrorCode =
    Success
  | ChannelNotFound | ChannelAlreadyExists | ChannelFull | ChannelClosed | InvalidChannelName
  | MessageTooLarge | InvalidMessage | MessageCorrupted | ChecksumMismatch
  | OutOfMemory | SharedMemoryError | MappingFailed | InvalidMemoryLayout
  | LockTimeout | ConcurrencyViolation
  | SystemError | PermissionDenied | ResourceBusy | InvalidOperation
  | VersionMismatch | IncompatibleProtocol

definition is_ok :: "ErrorCode \<Rightarrow> bool" where
  "is_ok e \<longleftrightarrow> e = Success"

definition is_error :: "ErrorCode \<Rightarrow> bool" where
  "is_error e \<longleftrightarrow> e \<noteq> Success"

subsection \<open>common/alignment.hpp\<close>

definition CACHE_LINE_SIZE :: size_t where
  "CACHE_LINE_SIZE = 64"

definition align_up :: "size_t \<Rightarrow> size_t \<Rightarrow> size_t" where
  "align_up val alignment = (val + alignment - 1) AND NOT (alignment - 1)"

definition is_power_of_two :: "size_t \<Rightarrow> bool" where
  "is_power_of_two val \<longleftrightarrow> val \<noteq> 0 \<and> val AND (val - 1) = 0"

subsection \<open>common/types.hpp\<close>

text \<open>\<open>MessageHeader::MAGIC\<close> and \<open>SharedMemoryHeader::MAGIC\<close> are the same constant.\<close>

definition MAGIC :: u32 where
  "MAGIC = 0x53574946"

record MessageHeader =
  msg_magic :: u32
  msg_size :: u32
  msg_sequence :: u64
  msg_timestamp :: u64
  msg_checksum :: u32
  msg_reserved :: u32

text \<open>\<open>sizeof(MessageHeader)\<close>, fixed by the \<open>static_assert\<close> in types.hpp.\<close>

definition sizeof_MessageHeader :: size_t where
  "sizeof_MessageHeader = 32"

record SharedMemoryHeader =
  hdr_magic :: u32
  hdr_version :: u32
  hdr_ring_buffer_size :: u64
  write_index :: u64
  read_index :: u64
  sender_pid :: u32
  receiver_pid :: u32
  hdr_flags :: u64
  hdr_reserved :: "u64 list"

definition sizeof_SharedMemoryHeader :: size_t where
  "sizeof_SharedMemoryHeader = 128"

text \<open>
  The mapped region: the header at offset 0 and the ring bytes that follow it at offset
  \<open>align_up(sizeof(SharedMemoryHeader), CACHE_LINE_SIZE)\<close>. The two indices are atomics in
  the source; the model is sequential (one call at a time), so they are plain fields.
\<close>

record Region =
  hdr :: SharedMemoryHeader
  ring :: "u8 list"

subsection \<open>Byte image of a MessageHeader\<close>

text \<open>
  \<open>write_bytes(&msg_header, sizeof(msg_header), ...)\<close> copies the object representation of
  the struct: fields in declaration order, each little-endian, no padding (4+4+8+8+4+4 = 32).
\<close>

fun le_bytes :: "nat \<Rightarrow> 'a::len word \<Rightarrow> u8 list" where
  "le_bytes 0 w = []"
| "le_bytes (Suc n) w = ucast w # le_bytes n (drop_bit 8 w)"

fun le_word :: "u8 list \<Rightarrow> 'a::len word" where
  "le_word [] = 0"
| "le_word (b # bs) = ucast b OR push_bit 8 (le_word bs)"

definition encode_MessageHeader :: "MessageHeader \<Rightarrow> u8 list" where
  "encode_MessageHeader h =
     le_bytes 4 (msg_magic h) @ le_bytes 4 (msg_size h) @ le_bytes 8 (msg_sequence h) @
     le_bytes 8 (msg_timestamp h) @ le_bytes 4 (msg_checksum h) @ le_bytes 4 (msg_reserved h)"

definition decode_MessageHeader :: "u8 list \<Rightarrow> MessageHeader" where
  "decode_MessageHeader bs =
     \<lparr> msg_magic = le_word (take 4 bs),
       msg_size = le_word (take 4 (drop 4 bs)),
       msg_sequence = le_word (take 8 (drop 8 bs)),
       msg_timestamp = le_word (take 8 (drop 16 bs)),
       msg_checksum = le_word (take 4 (drop 24 bs)),
       msg_reserved = le_word (take 4 (drop 28 bs)) \<rparr>"


subsection \<open>common/version.hpp\<close>

record Version =
  major :: u16
  minor :: u16
  patch :: u16

definition is_compatible_with :: "Version \<Rightarrow> Version \<Rightarrow> bool" where
  "is_compatible_with this other \<longleftrightarrow> major this = major other"

definition as_uint32 :: "Version \<Rightarrow> u32" where
  "as_uint32 v = push_bit 16 (ucast (major v)) OR push_bit 8 (ucast (minor v)) OR ucast (patch v)"

definition PROTOCOL_VERSION :: Version where
  "PROTOCOL_VERSION = \<lparr> major = 1, minor = 0, patch = 0 \<rparr>"

subsection \<open>sender/config.hpp\<close>

record ChannelConfig =
  ring_buffer_size :: size_t
  max_message_size :: size_t
  flags :: u64
  timeout_us :: u64
  enable_checksum :: bool
  overwrite_on_full :: bool

definition is_valid :: "ChannelConfig \<Rightarrow> bool" where
  "is_valid c =
     (if \<not> is_power_of_two (ring_buffer_size c) then False
      else if max_message_size c \<ge> ring_buffer_size c div 2 then False
      else if ring_buffer_size c < 4096 \<or> max_message_size c < 64 then False
      else True)"

section \<open>The ring buffer (sender/ring\_buffer.hpp)\<close>

text \<open>
  \<open>std::memcpy(dst + doff, src + soff, n)\<close> on byte lists. In range
  (\<open>doff + n \<le> length dst\<close>, \<open>soff + n \<le> length src\<close>) this is the C++ copy; out of range
  the C++ is undefined, and the model copies the bytes that exist.
\<close>

definition memcpy :: "u8 list \<Rightarrow> nat \<Rightarrow> u8 list \<Rightarrow> nat \<Rightarrow> nat \<Rightarrow> u8 list" where
  "memcpy dst doff src soff n = take doff dst @ take n (drop soff src) @ drop (doff + n) dst"

text \<open>The object holds \<open>size_\<close> and \<open>mask_\<close> (fields \<open>rb_size\<close>, \<open>rb_mask\<close>); \<open>buffer_\<close> points at
  the ring bytes of the region, which each operation takes as an argument.\<close>

record RingBuffer =
  rb_size :: size_t
  rb_mask :: size_t

definition RingBuffer_new :: "size_t \<Rightarrow> RingBuffer" where
  "RingBuffer_new sz = \<lparr> rb_size = sz, rb_mask = sz - 1 \<rparr>"

definition write_bytes :: "RingBuffer \<Rightarrow> u8 list \<Rightarrow> u8 list \<Rightarrow> size_t \<Rightarrow> u64 \<Rightarrow> u8 list" where
  "write_bytes rb buffer src sz offset =
     (let pos = offset AND rb_mask rb;
          end_pos = pos + sz
      in if end_pos \<le> rb_size rb then memcpy buffer (unat pos) src 0 (unat sz)
         else let first_part = rb_size rb - pos
              in memcpy (memcpy buffer (unat pos) src 0 (unat first_part))
                   0 src (unat first_part) (unat (sz - first_part)))"

definition read_bytes :: "RingBuffer \<Rightarrow> u8 list \<Rightarrow> u8 list \<Rightarrow> size_t \<Rightarrow> u64 \<Rightarrow> u8 list" where
  "read_bytes rb buffer dst sz offset =
     (let pos = offset AND rb_mask rb;
          end_pos = pos + sz
      in if end_pos \<le> rb_size rb then memcpy dst 0 buffer (unat pos) (unat sz)
         else let first_part = rb_size rb - pos
              in memcpy (memcpy dst 0 buffer (unat pos) (unat first_part))
                   (unat first_part) buffer 0 (unat (sz - first_part)))"

text \<open>
  \<open>try_write(data, data_size, header)\<close>: \<open>data\<close> is the caller's payload, \<open>now\<close> the value
  \<open>get_timestamp_ns()\<close> returns at the call. The result is the returned flag and the region
  after the call.
\<close>

definition try_write :: "RingBuffer \<Rightarrow> u8 list \<Rightarrow> size_t \<Rightarrow> u64 \<Rightarrow> Region \<Rightarrow> bool \<times> Region" where
  "try_write rb data data_size now rg =
     (let total_size = sizeof_MessageHeader + align_up data_size 8;
          current_write = write_index (hdr rg);
          current_read = read_index (hdr rg);
          available = rb_size rb - (current_write - current_read)
      in if available < total_size then (False, rg)
         else
           let msg_header = \<lparr> msg_magic = MAGIC, msg_size = ucast data_size,
                              msg_sequence = current_write, msg_timestamp = now,
                              msg_checksum = 0, msg_reserved = 0 \<rparr>;
               ring1 = write_bytes rb (ring rg) (encode_MessageHeader msg_header)
                         sizeof_MessageHeader current_write;
               ring2 = write_bytes rb ring1 data data_size (current_write + sizeof_MessageHeader)
           in (True, rg\<lparr> hdr := (hdr rg)\<lparr> write_index := current_write + total_size \<rparr>,
                         ring := ring2 \<rparr>))"

text \<open>
  \<open>MessageHeader msg_header{}; read_bytes(&msg_header, sizeof(msg_header), offset)\<close>: the
  frame header found at an absolute offset, read into a zeroed local.
\<close>

definition read_MessageHeader :: "RingBuffer \<Rightarrow> u8 list \<Rightarrow> u64 \<Rightarrow> MessageHeader" where
  "read_MessageHeader rb buffer offset =
     decode_MessageHeader (read_bytes rb buffer (replicate 32 0) sizeof_MessageHeader offset)"

text \<open>
  \<open>try_read(data, data_size, header)\<close>: \<open>data\<close> is the caller's buffer and \<open>data_size\<close> the
  in-out size. The result is the returned flag, the caller's buffer and size after the call,
  and the region after the call.
\<close>

definition try_read :: "RingBuffer \<Rightarrow> u8 list \<Rightarrow> size_t \<Rightarrow> Region \<Rightarrow> bool \<times> u8 list \<times> size_t \<times> Region" where
  "try_read rb data data_size rg =
     (let current_read = read_index (hdr rg);
          current_write = write_index (hdr rg)
      in if current_read \<ge> current_write then (False, data, data_size, rg)
         else
           let msg_header = read_MessageHeader rb (ring rg) current_read
           in if msg_magic msg_header \<noteq> MAGIC then (False, data, data_size, rg)
              else if ucast (msg_size msg_header) > data_size
                then (False, data, ucast (msg_size msg_header), rg)
              else
                let data' = read_bytes rb (ring rg) data (ucast (msg_size msg_header))
                              (current_read + sizeof_MessageHeader);
                    total_size = sizeof_MessageHeader + align_up (ucast (msg_size msg_header)) 8
                in (True, data', ucast (msg_size msg_header),
                    rg\<lparr> hdr := (hdr rg)\<lparr> read_index := current_read + total_size \<rparr> \<rparr>))"

definition available_write_space :: "RingBuffer \<Rightarrow> SharedMemoryHeader \<Rightarrow> size_t" where
  "available_write_space rb header = rb_size rb - (write_index header - read_index header)"

definition available_read_data :: "RingBuffer \<Rightarrow> SharedMemoryHeader \<Rightarrow> size_t" where
  "available_read_data rb header = write_index header - read_index header"


text \<open>
  Calling \<open>try_write\<close> for each payload of a list in turn (each with its clock reading), as
  the fill loop of tests/unit/ring\_buffer\_test.cpp does, collecting the returned flags.
\<close>

fun try_write_all :: "RingBuffer \<Rightarrow> (u8 list \<times> u64) list \<Rightarrow> Region \<Rightarrow> bool list \<times> Region" where
  "try_write_all rb [] rg = ([], rg)"
| "try_write_all rb ((data, now) # rest) rg =
     (let (written, rg') = try_write rb data (of_nat (length data)) now rg;
          (ws, rg'') = try_write_all rb rest rg'
      in (written # ws, rg''))"

text \<open>
  \<open>n\<close> calls of \<open>try_read\<close> in a row into the same buffer, the in-out size set to the buffer's
  capacity \<open>cap\<close> before each call, as the loop of \<open>Receiver::Impl::start\<close> does; the result is
  the returned flags, the buffer and the region at the end.
\<close>

fun try_read_n :: "nat \<Rightarrow> RingBuffer \<Rightarrow> u8 list \<Rightarrow> size_t \<Rightarrow> Region \<Rightarrow> bool list \<times> u8 list \<times> Region" where
  "try_read_n 0 rb data cap rg = ([], data, rg)"
| "try_read_n (Suc n) rb data cap rg =
     (let (got, data', sz', rg') = try_read rb data cap rg;
          (gs, data'', rg'') = try_read_n n rb data' cap rg'
      in (got # gs, data'', rg''))"

section \<open>Handshake (ipc/handshake.cpp)\<close>

text \<open>A header pointer is an optional header (\<open>None\<close> is the null pointer); \<open>pid\<close> is what
  \<open>getpid()\<close> returns in the calling process.\<close>

definition zero_SharedMemoryHeader :: SharedMemoryHeader where
  "zero_SharedMemoryHeader =
     \<lparr> hdr_magic = 0, hdr_version = 0, hdr_ring_buffer_size = 0, write_index = 0,
       read_index = 0, sender_pid = 0, receiver_pid = 0, hdr_flags = 0,
       hdr_reserved = replicate 10 0 \<rparr>"

definition initialize_header :: "u32 \<Rightarrow> SharedMemoryHeader \<Rightarrow> size_t \<Rightarrow> u64 \<Rightarrow> SharedMemoryHeader" where
  "initialize_header pid header rbs fl =
     zero_SharedMemoryHeader
       \<lparr> hdr_magic := MAGIC,
         hdr_version := as_uint32 PROTOCOL_VERSION,
         hdr_ring_buffer_size := rbs,
         write_index := 0,
         read_index := 0,
         hdr_flags := fl,
         sender_pid := pid \<rparr>"

definition validate_header :: "SharedMemoryHeader option \<Rightarrow> ErrorCode" where
  "validate_header header =
     (case header of
        None \<Rightarrow> InvalidOperation
      | Some h \<Rightarrow>
          if hdr_magic h \<noteq> MAGIC then InvalidMemoryLayout
          else
            let header_version =
                  \<lparr> major = ucast (drop_bit 16 (hdr_version h) AND 0xFFFF),
                    minor = ucast (drop_bit 8 (hdr_version h) AND 0xFF),
                    patch = ucast (hdr_version h AND 0xFF) \<rparr>
            in if \<not> is_compatible_with PROTOCOL_VERSION header_version then VersionMismatch
               else if hdr_ring_buffer_size h = 0 \<or>
                       hdr_ring_buffer_size h AND (hdr_ring_buffer_size h - 1) \<noteq> 0
                 then InvalidMemoryLayout
               else Success)"

definition sender_handshake :: "SharedMemoryHeader option \<Rightarrow> ErrorCode" where
  "sender_handshake header =
     (case header of
        None \<Rightarrow> InvalidOperation
      | Some h \<Rightarrow> if hdr_magic h = MAGIC then validate_header header else Success)"

definition receiver_handshake :: "u32 \<Rightarrow> SharedMemoryHeader option \<Rightarrow> ErrorCode \<times> SharedMemoryHeader option" where
  "receiver_handshake pid header =
     (case header of
        None \<Rightarrow> (InvalidOperation, header)
      | Some h \<Rightarrow>
          if hdr_magic h \<noteq> MAGIC then (ChannelNotFound, header)
          else let result = validate_header header
               in if is_error result then (result, header)
                  else (Success, Some (h\<lparr> receiver_pid := pid \<rparr>)))"


section \<open>Channel (sender/channel.hpp, channel.cpp)\<close>

text \<open>
  A call that dereferences the mapped region either returns or, when the pages it points at
  are no longer mapped, faults (undefined behaviour in C++; a segmentation fault on the POSIX
  build).
\<close>

datatype 'a outcome = Returned 'a | Fault

text \<open>
  \<open>shared_memory_\<close> is kept as its null flag (\<open>ch_shared_memory\<close>, \<open>True\<close>: non-null).
  \<open>ring_buffer_\<close> is built from \<open>config_.ring_buffer_size\<close> by the constructor and is kept by
  value in \<open>ch_ring_buffer\<close>; \<open>header_\<close> points at the header of the region. \<open>ch_mapped\<close> is not a
  member of the class: it records whether the pages \<open>shared_memory_\<close> points at are still
  mapped in the process. The constructor is handed a live mapping; \<open>close\<close> calls \<open>munmap\<close> and
  nulls the pointer.
\<close>

record Channel =
  ch_name :: string
  ch_config :: ChannelConfig
  ch_shared_memory :: bool
  ch_total_size :: size_t
  ch_ring_buffer :: RingBuffer
  ch_mapped :: bool

definition Channel_new :: "string \<Rightarrow> ChannelConfig \<Rightarrow> size_t \<Rightarrow> Channel" where
  "Channel_new name config total_size =
     \<lparr> ch_name = name, ch_config = config, ch_shared_memory = True, ch_total_size = total_size,
       ch_ring_buffer = RingBuffer_new (ring_buffer_size config), ch_mapped = True \<rparr>"

definition is_open :: "Channel \<Rightarrow> bool" where
  "is_open ch \<longleftrightarrow> ch_shared_memory ch"

definition close :: "Channel \<Rightarrow> Channel" where
  "close ch = ch\<lparr> ch_shared_memory := False, ch_mapped := False \<rparr>"

text \<open>
  What is left of a \<open>Channel\<close> that was move-constructed from another one once that other one
  is destroyed. \<open>Channel(Channel&&)\<close> is defaulted, so it copies \<open>shared_memory_\<close> and leaves
  the source's pointer in place; \<open>~Channel()\<close> calls \<open>close()\<close>, which \<open>munmap\<close>s that pointer.
  The new object keeps its non-null \<open>shared_memory_\<close> (so \<open>is_open\<close> still holds), but the
  pages are gone.
\<close>

definition source_destroyed :: "Channel \<Rightarrow> Channel" where
  "source_destroyed ch = ch\<lparr> ch_mapped := False \<rparr>"

text \<open>
  \<open>Channel::open\<close>. \<open>create_or_open\<close> is the platform's \<open>SharedMemory::create_or_open(name,
  total_size, true)\<close>: given the size it returns an error or the contents of the mapped
  shared-memory object. On success the function returns \<open>Result<Channel>(Channel(...))\<close>: the
  result holds a \<open>Channel\<close> moved from a temporary that is destroyed at the end of the
  statement, and the local \<open>SharedMemory shm\<close>, whose destructor also calls \<open>munmap\<close> on the
  same pages, is destroyed on return. The second component is the contents of the
  shared-memory object after the call; the object outlives the mapping and keeps what was
  written to it.
\<close>

definition Channel_open ::
  "(size_t \<Rightarrow> ErrorCode + Region) \<Rightarrow> u32 \<Rightarrow> string \<Rightarrow> ChannelConfig \<Rightarrow> ErrorCode + Channel \<times> Region" where
  "Channel_open create_or_open pid name config =
     (if \<not> is_valid config then Inl InvalidOperation
      else
        let header_size = align_up sizeof_SharedMemoryHeader CACHE_LINE_SIZE;
            total_size = header_size + ring_buffer_size config
        in case create_or_open total_size of
             Inl e \<Rightarrow> Inl e
           | Inr rg \<Rightarrow>
               let needs_init = (hdr_magic (hdr rg) \<noteq> MAGIC);
                   header = (if needs_init
                             then initialize_header pid (hdr rg) (ring_buffer_size config) (flags config)
                             else hdr rg);
                   validate_result = (if needs_init then Success else validate_header (Some header))
               in if is_error validate_result then Inl validate_result
                  else
                    let handshake_result = sender_handshake (Some header)
                    in if is_error handshake_result then Inl handshake_result
                       else Inr (source_destroyed (Channel_new name config total_size),
                                 rg\<lparr> hdr := header \<rparr>))"

section \<open>Sender (sender/sender.hpp)\<close>

record Sender =
  snd_channel_name :: string
  snd_config :: ChannelConfig
  snd_channel :: "Channel option"

text \<open>
  The constructor. \<open>channel_\<close> is move-constructed from the value inside the result of
  \<open>Channel::open\<close>, which is destroyed at the end of the constructor. The second component is
  the contents of the shared-memory object after the constructor, if it was opened.
\<close>

definition Sender_new ::
  "(size_t \<Rightarrow> ErrorCode + Region) \<Rightarrow> u32 \<Rightarrow> string \<Rightarrow> ChannelConfig \<Rightarrow> Sender \<times> Region option" where
  "Sender_new create_or_open pid channel_name config =
     (case Channel_open create_or_open pid channel_name config of
        Inr (ch, rg) \<Rightarrow>
          (\<lparr> snd_channel_name = channel_name, snd_config = config,
             snd_channel = Some (source_destroyed ch) \<rparr>, Some rg)
      | Inl e \<Rightarrow>
          (\<lparr> snd_channel_name = channel_name, snd_config = config, snd_channel = None \<rparr>, None))"

definition is_ready :: "Sender \<Rightarrow> bool" where
  "is_ready s = (case snd_channel s of None \<Rightarrow> False | Some ch \<Rightarrow> is_open ch)"

text \<open>
  \<open>send_bytes(data, size)\<close> on the shared-memory contents \<open>rg\<close>. The two early returns touch
  no shared memory; \<open>rb->try_write(data, size, header)\<close> dereferences \<open>header\<close> and the ring.
\<close>

definition send_bytes ::
  "Sender \<Rightarrow> u8 list \<Rightarrow> size_t \<Rightarrow> u64 \<Rightarrow> Region \<Rightarrow> (ErrorCode \<times> Region) outcome" where
  "send_bytes s data sz now rg =
     (if \<not> is_ready s then Returned (ChannelClosed, rg)
      else if sz > max_message_size (snd_config s) then Returned (MessageTooLarge, rg)
      else
        case snd_channel s of
          None \<Rightarrow> Returned (ChannelClosed, rg)
        | Some ch \<Rightarrow>
            if \<not> ch_mapped ch then Fault
            else
              let (written, rg') = try_write (ch_ring_buffer ch) data sz now rg
              in if written then Returned (Success, rg')
                 else if overwrite_on_full (snd_config s) then Returned (ChannelFull, rg')
                 else Returned (ChannelFull, rg'))"

definition available_space :: "Sender \<Rightarrow> Region \<Rightarrow> size_t outcome" where
  "available_space s rg =
     (if \<not> is_ready s then Returned 0
      else
        case snd_channel s of
          None \<Rightarrow> Returned 0
        | Some ch \<Rightarrow>
            if \<not> ch_mapped ch then Fault
            else Returned (available_write_space (ch_ring_buffer ch) (hdr rg)))"

section \<open>Receiver (receiver/receiver.cpp)\<close>

record Stats =
  messages_received :: u64
  bytes_received :: u64
  errors :: u64
  buffer_full_count :: u64

record Receiver =
  rcv_channel_name :: string
  rcv_config :: ChannelConfig
  rcv_channel :: "Channel option"
  rcv_running :: bool
  rcv_stats :: Stats

text \<open>\<open>Receiver::Impl::Impl\<close>: it opens the channel with the same \<open>Channel::open\<close> as the sender,
  and moves the channel out of the result in the same way.\<close>

definition Receiver_new ::
  "(size_t \<Rightarrow> ErrorCode + Region) \<Rightarrow> u32 \<Rightarrow> string \<Rightarrow> ChannelConfig \<Rightarrow> Receiver \<times> Region option" where
  "Receiver_new create_or_open pid channel_name config =
     (let stats0 = \<lparr> messages_received = 0, bytes_received = 0, errors = 0, buffer_full_count = 0 \<rparr>
      in case Channel_open create_or_open pid channel_name config of
           Inr (ch, rg) \<Rightarrow>
             (\<lparr> rcv_channel_name = channel_name, rcv_config = config,
                rcv_channel = Some (source_destroyed ch),
                rcv_running = False, rcv_stats = stats0 \<rparr>, Some rg)
         | Inl e \<Rightarrow>
             (\<lparr> rcv_channel_name = channel_name, rcv_config = config, rcv_channel = None,
                rcv_running = False, rcv_stats = stats0 \<rparr>, None))"

text \<open>
  \<open>poll_one(handler)\<close>: the result, the bytes handed to the handler (if it was called), the
  receiver and the shared-memory contents after the call. \<open>Result<bool>(false)\<close> is a success
  carrying \<open>false\<close>. \<open>try_read\<close> dereferences \<open>header\<close> and the ring.
\<close>

definition poll_one ::
  "Receiver \<Rightarrow> Region \<Rightarrow> ((ErrorCode + bool) \<times> u8 list option \<times> Receiver \<times> Region) outcome" where
  "poll_one rcv rg =
     (case rcv_channel rcv of
        None \<Rightarrow> Returned (Inl ChannelNotFound, None, rcv, rg)
      | Some ch \<Rightarrow>
          if \<not> is_open ch then Returned (Inl ChannelNotFound, None, rcv, rg)
          else if \<not> ch_mapped ch then Fault
          else
            let buffer = replicate (unat (max_message_size (rcv_config rcv))) (0 :: u8);
                sz = max_message_size (rcv_config rcv);
                (got, buffer', sz', rg') = try_read (ch_ring_buffer ch) buffer sz rg
            in if got
               then Returned (Inr True, Some (take (unat sz') buffer'),
                     rcv\<lparr> rcv_stats := (rcv_stats rcv)
                            \<lparr> messages_received := messages_received (rcv_stats rcv) + 1,
                              bytes_received := bytes_received (rcv_stats rcv) + sz' \<rparr> \<rparr>,
                     rg')
               else Returned (Inr False, None, rcv, rg'))"

section \<open>Notions used in the statements and proofs\<close>

text \<open>
  What the \<open>RingBuffer\<close> constructor establishes (and asserts) for a ring over \<open>buffer\<close>: the
  size is a power of two, the mask is the size minus one, and the buffer has that many bytes.
\<close>

definition ring_ok :: "RingBuffer \<Rightarrow> u8 list \<Rightarrow> bool" where
  "ring_ok rb buffer \<longleftrightarrow>
     is_power_of_two (rb_size rb) \<and> rb_mask rb = rb_size rb - 1 \<and> length buffer = unat (rb_size rb)"

text \<open>The two copy routines over natural-number positions, and the position \<open>j\<close> bytes after
  \<open>pos\<close> in a ring of \<open>N\<close> bytes.\<close>

definition ring_put :: "nat \<Rightarrow> u8 list \<Rightarrow> u8 list \<Rightarrow> nat \<Rightarrow> nat \<Rightarrow> u8 list" where
  "ring_put N buffer src pos n =
     (if pos + n \<le> N then memcpy buffer pos src 0 n
      else memcpy (memcpy buffer pos src 0 (N - pos)) 0 src (N - pos) (n - (N - pos)))"

definition ring_get :: "nat \<Rightarrow> u8 list \<Rightarrow> u8 list \<Rightarrow> nat \<Rightarrow> nat \<Rightarrow> u8 list" where
  "ring_get N buffer dst pos n =
     (if pos + n \<le> N then memcpy dst 0 buffer pos n
      else memcpy (memcpy dst 0 buffer pos (N - pos)) (N - pos) buffer 0 (n - (N - pos)))"

definition ring_idx :: "nat \<Rightarrow> nat \<Rightarrow> nat \<Rightarrow> nat" where
  "ring_idx N pos j = (if pos + j < N then pos + j else pos + j - N)"


text \<open>
  The bytes of the frame at the read position, taken straight from the ring: byte \<open>j\<close> of the
  frame is the ring byte at position \<open>(read_index mod size_ + j) mod size_\<close>. By the layout of
  \<open>MessageHeader\<close> in types.hpp, bytes 0 to 3 hold \<open>magic\<close> and bytes 4 to 7 hold \<open>size\<close>,
  least significant byte first; \<open>MessageHeader::MAGIC = 0x53574946\<close> is the byte sequence
  \<open>0x46 0x49 0x57 0x53\<close>.
\<close>

definition frame_byte :: "RingBuffer \<Rightarrow> Region \<Rightarrow> nat \<Rightarrow> u8" where
  "frame_byte rb rg j =
     ring rg ! ((unat (read_index (hdr rg)) mod unat (rb_size rb) + j) mod unat (rb_size rb))"

definition frame_has_magic :: "RingBuffer \<Rightarrow> Region \<Rightarrow> bool" where
  "frame_has_magic rb rg \<longleftrightarrow>
     frame_byte rb rg 0 = 0x46 \<and> frame_byte rb rg 1 = 0x49 \<and>
     frame_byte rb rg 2 = 0x57 \<and> frame_byte rb rg 3 = 0x53"

definition frame_size_field :: "RingBuffer \<Rightarrow> Region \<Rightarrow> size_t" where
  "frame_size_field rb rg =
     ucast (frame_byte rb rg 4) OR push_bit 8 (ucast (frame_byte rb rg 5)) OR
     push_bit 16 (ucast (frame_byte rb rg 6)) OR push_bit 24 (ucast (frame_byte rb rg 7))"

section \<open>Example inputs\<close>

text \<open>The configuration of the end-to-end scenarios: a 4096-byte ring, messages up to 1024
  bytes, no flags.\<close>

definition example_config :: ChannelConfig where
  "example_config =
     \<lparr> ring_buffer_size = 4096, max_message_size = 1024, flags = 0, timeout_us = 0,
       enable_checksum = False, overwrite_on_full = False \<rparr>"

text \<open>A zero-filled region with \<open>n\<close> ring bytes, and a platform layer that maps a fresh
  zero-filled region of the size it is asked for.\<close>

definition zero_region :: "nat \<Rightarrow> Region" where
  "zero_region n = \<lparr> hdr = zero_SharedMemoryHeader, ring = replicate n 0 \<rparr>"

definition zero_mapping :: "size_t \<Rightarrow> ErrorCode + Region" where
  "zero_mapping total_size =
     Inr (zero_region (unat (total_size - align_up sizeof_SharedMemoryHeader CACHE_LINE_SIZE)))"

text \<open>The channel, sender and receiver that the constructors produce for that configuration.\<close>

definition example_channel :: Channel where
  "example_channel = source_destroyed (Channel_new ''demo'' example_config 4224)"

definition example_sender :: Sender where
  "example_sender =
     \<lparr> snd_channel_name = ''demo'', snd_config = example_config, snd_channel = Some example_channel \<rparr>"

definition example_receiver :: Receiver where
  "example_receiver =
     \<lparr> rcv_channel_name = ''demo'', rcv_config = example_config, rcv_channel = Some example_channel,
       rcv_running = False,
       rcv_stats = \<lparr> messages_received = 0, bytes_received = 0, errors = 0, buffer_full_count = 0 \<rparr> \<rparr>"

text \<open>Shared-memory contents with the given indices over the given ring bytes.\<close>

definition region_at :: "u64 \<Rightarrow> u64 \<Rightarrow> u8 list \<Rightarrow> Region" where
  "region_at w r bytes =
     \<lparr> hdr = zero_SharedMemoryHeader\<lparr> write_index := w, read_index := r \<rparr>, ring = bytes \<rparr>"

text \<open>A frame header with the given magic and payload size, sequence 0, timestamp 9.\<close>

definition example_frame_header :: "u32 \<Rightarrow> u32 \<Rightarrow> MessageHeader" where
  "example_frame_header m n =
     \<lparr> msg_magic = m, msg_size = n, msg_sequence = 0, msg_timestamp = 9,
       msg_checksum = 0, msg_reserved = 0 \<rparr>"

text \<open>A region of \<open>n\<close> ring bytes (\<open>n \<ge> 35\<close>) that holds one unread frame at position 0: the
  header \<open>example_frame_header m sz\<close>, the payload \<open>0x41 0x42 0x43\<close>, then zeros.\<close>

definition one_frame_region :: "nat \<Rightarrow> u32 \<Rightarrow> u32 \<Rightarrow> Region" where
  "one_frame_region n m sz =
     region_at 40 0 (encode_MessageHeader (example_frame_header m sz) @ [0x41, 0x42, 0x43]
                      @ replicate (n - 35) 0)"

text \<open>A 64-byte ring whose bytes 56 to 63 are the magic and the size field 3 of a frame header;
  the rest of that header (all zero) continues at byte 0.\<close>

definition wrapping_frame_ring :: "u8 list" where
  "wrapping_frame_ring = replicate 56 0 @ [0x46, 0x49, 0x57, 0x53, 3, 0, 0, 0]"

section \<open>Machine arithmetic\<close>

lemma pow2_nat:
  fixes n :: nat
  shows "n \<noteq> 0 \<Longrightarrow> n AND (n - 1) = 0 \<Longrightarrow> \<exists>k. n = 2 ^ k"
proof (induction n rule: less_induct)
  case (less n)
  show ?case
  proof (cases "even n")
    case True
    then obtain m where m: "n = 2 * m" by (elim evenE)
    with less.prems have m0: "m \<noteq> 0" by simp
    then have pred: "n - 1 = 2 * (m - 1) + 1" using m by simp
    have "n AND (n - 1) = 2 * (m AND (m - 1))"
      unfolding pred unfolding m
      by (subst and_nat_rec) simp
    with less.prems have "m AND (m - 1) = 0" by simp
    moreover have "m < n" using m m0 by simp
    ultimately obtain k where "m = 2 ^ k" using less.IH m0 by blast
    then have "n = 2 ^ Suc k" using m by simp
    then show ?thesis by blast
  next
    case False
    then obtain m where m: "n = 2 * m + 1" by (elim oddE)
    then have "n AND (n - 1) = 2 * (m AND m)"
      by (subst and_nat_rec) simp
    with less.prems have "m = 0" by simp
    then have "n = 2 ^ 0" using m by simp
    then show ?thesis by blast
  qed
qed

lemma is_power_of_two_exp:
  assumes "is_power_of_two w"
  shows "\<exists>k<64. w = 2 ^ k \<and> unat w = 2 ^ k"
proof -
  from assms have w0: "w \<noteq> 0" and a: "w AND (w - 1) = 0" by (simp_all add: is_power_of_two_def)
  have "unat (w AND (w - 1)) = unat w AND (unat w - 1)"
    using w0 by (simp add: unsigned_and_eq unat_minus_one)
  with a have "unat w AND (unat w - 1) = 0" by simp
  moreover have "unat w \<noteq> 0" using w0 by (simp add: unat_eq_0)
  ultimately obtain k where k: "unat w = 2 ^ k" using pow2_nat by blast
  have "unat w < 2 ^ LENGTH(64)" by (rule unsigned_less)
  with k have "(2::nat) ^ k < 2 ^ LENGTH(64)" by simp
  then have "k < LENGTH(64)" by (rule power_less_imp_less_exp [rotated]) simp
  then have k64: "k < 64" by simp
  have "w = of_nat (unat w)" by simp
  then have "w = 2 ^ k" unfolding k by simp
  with k k64 show ?thesis by blast
qed

lemma unat_and_mask_pow2:
  assumes "is_power_of_two w"
  shows "unat (x AND (w - 1)) = unat x mod unat w"
proof -
  from is_power_of_two_exp [OF assms] obtain k where k: "k < 64" "w = 2 ^ k" "unat w = 2 ^ k" by blast
  have "x AND (w - 1) = take_bit k x"
    by (simp add: k take_bit_eq_mask mask_eq_exp_minus_1)
  then have "unat (x AND (w - 1)) = take_bit k (unat x)"
    by (simp only: unsigned_take_bit_eq)
  also have "\<dots> = unat x mod unat w"
    by (simp only: take_bit_eq_mod k(3))
  finally show ?thesis .
qed

lemma ring_size_bound:
  assumes "is_power_of_two w"
  shows "0 < unat w" "unat w \<le> 2 ^ 63"
proof -
  from is_power_of_two_exp [OF assms] obtain k where k: "k < 64" "unat w = 2 ^ k" by blast
  show "0 < unat w" by (simp add: k)
  from k(1) have "k \<le> 63" by simp
  then have "(2::nat) ^ k \<le> 2 ^ 63" by (rule power_increasing) simp
  then show "unat w \<le> 2 ^ 63" by (simp only: k)
qed

lemma align_up_8: "align_up v 8 = (v + 7) AND NOT 7"
  by (simp add: align_up_def ac_simps)

lemma and_not_7: "(x :: u64) AND NOT 7 = push_bit 3 (drop_bit 3 x)"
proof -
  have m: "x AND NOT (mask 3) = push_bit 3 (drop_bit 3 x)"
    by (rule bit_word_eqI) (auto simp: bit_simps)
  have "(7 :: u64) = mask 3" by (simp add: mask_eq_exp_minus_1)
  then show ?thesis by (simp only: m)
qed

lemma unat_and_not_7: "unat ((x :: u64) AND NOT 7) = 8 * (unat x div 8)"
proof -
  have d: "unat (x div 8) = unat x div 8" by (simp add: unat_div)
  have "unat x < 2 ^ 64" using unsigned_less [of x] by simp
  then have "unat (x div 8) * unat (8 :: u64) < 2 ^ LENGTH(64)" by (simp add: d)
  then have "unat (x div 8 * 8) = unat (x div 8) * unat (8 :: u64)"
    by (simp only: unat_mult_lem)
  then have "unat (x div 8 * 8) = 8 * (unat x div 8)" by (simp add: d)
  moreover have "push_bit 3 (drop_bit 3 x) = x div 8 * 8"
    by (simp add: push_bit_eq_mult drop_bit_eq_div)
  ultimately show ?thesis by (simp only: and_not_7)
qed

lemma unat_align_up_8:
  assumes "unat v + 7 < 2 ^ 64"
  shows "unat (align_up v 8) = 8 * ((unat v + 7) div 8)"
proof -
  have "unat (v + 7) = unat v + 7"
    using assms by (simp add: unat_word_ariths)
  then show ?thesis by (simp only: align_up_8 unat_and_not_7)
qed

lemma unat_ucast_32_64: "unat (ucast (ucast (x :: u64) :: u32) :: u64) = unat x mod 2 ^ 32"
  by (simp add: unsigned_ucast_eq unsigned_take_bit_eq take_bit_eq_mod unat_mod)

lemma ucast_32_64_id: "unat (x :: u64) < 2 ^ 32 \<Longrightarrow> (ucast (ucast x :: u32) :: u64) = x"
  by (rule word_unat_eq_iff [THEN iffD2]) (simp add: unat_ucast_32_64)

section \<open>The byte image of a frame header\<close>

lemma le_word_le_bytes: "(le_word (le_bytes n w) :: 'a::len word) = take_bit (8 * n) w"
proof (induction n arbitrary: w)
  case 0
  then show ?case by simp
next
  case (Suc n)
  show ?case
    apply (simp add: Suc)
    apply (rule bit_word_eqI)
    apply (auto simp: bit_simps)
    done
qed

lemma length_le_bytes [simp]: "length (le_bytes n w) = n"
  by (induction n arbitrary: w) auto

lemma le_word_le_bytes32 [simp]: "(le_word (le_bytes 4 w) :: u32) = w"
  by (simp only: le_word_le_bytes) (simp add: take_bit_word_eq_self)

lemma le_word_le_bytes64 [simp]: "(le_word (le_bytes 8 w) :: u64) = w"
  by (simp only: le_word_le_bytes) (simp add: take_bit_word_eq_self)

lemma length_encode_MessageHeader [simp]: "length (encode_MessageHeader h) = 32"
  by (simp add: encode_MessageHeader_def)

lemma decode_encode_MessageHeader [simp]: "decode_MessageHeader (encode_MessageHeader h) = h"
  by (simp add: decode_MessageHeader_def encode_MessageHeader_def)


section \<open>Copying into and out of the ring\<close>

lemma memcpy_length:
  "doff + n \<le> length dst \<Longrightarrow> soff + n \<le> length src \<Longrightarrow> length (memcpy dst doff src soff n) = length dst"
  by (simp add: memcpy_def)

lemma memcpy_nth:
  assumes "doff + n \<le> length dst" "soff + n \<le> length src" "i < length dst"
  shows "memcpy dst doff src soff n ! i =
           (if doff \<le> i \<and> i < doff + n then src ! (soff + (i - doff)) else dst ! i)"
proof -
  have l: "min (length src - soff) n = n" using assms by simp
  show ?thesis using assms by (auto simp: memcpy_def nth_append l)
qed

lemma write_bytes_nat:
  assumes ok: "ring_ok rb buffer" and n: "unat sz \<le> unat (rb_size rb)"
  shows "write_bytes rb buffer src sz offset =
     (let N = unat (rb_size rb); pos = unat offset mod N; n = unat sz
      in if pos + n \<le> N then memcpy buffer pos src 0 n
         else memcpy (memcpy buffer pos src 0 (N - pos)) 0 src (N - pos) (n - (N - pos)))"
proof -
  let ?N = "unat (rb_size rb)"
  let ?p = "offset AND rb_mask rb"
  from ok have pw: "is_power_of_two (rb_size rb)" and mk: "rb_mask rb = rb_size rb - 1"
    by (simp_all add: ring_ok_def)
  note b = ring_size_bound [OF pw]
  have p: "unat ?p = unat offset mod ?N" by (simp add: mk unat_and_mask_pow2 [OF pw])
  have plt: "unat ?p < ?N" unfolding p using b(1) by simp
  have sum: "unat (?p + sz) = unat ?p + unat sz"
    using plt n b(2) by (simp add: unat_word_ariths)
  have ple: "?p \<le> rb_size rb" using plt by (simp add: word_le_nat_alt)
  have fp: "unat (rb_size rb - ?p) = ?N - unat ?p" by (rule unat_sub [OF ple])
  have c: "?p + sz \<le> rb_size rb \<longleftrightarrow> unat ?p + unat sz \<le> ?N"
    by (simp add: word_le_nat_alt sum)
  have rest: "unat (sz - (rb_size rb - ?p)) = unat sz - (?N - unat ?p)" if "\<not> unat ?p + unat sz \<le> ?N"
  proof -
    have "rb_size rb - ?p \<le> sz" using that by (simp add: word_le_nat_alt fp)
    then show ?thesis by (simp add: unat_sub fp)
  qed
  show ?thesis
    by (simp add: write_bytes_def Let_def c fp rest p)
qed

lemma read_bytes_nat:
  assumes ok: "ring_ok rb buffer" and n: "unat sz \<le> unat (rb_size rb)"
  shows "read_bytes rb buffer dst sz offset =
     (let N = unat (rb_size rb); pos = unat offset mod N; n = unat sz
      in if pos + n \<le> N then memcpy dst 0 buffer pos n
         else memcpy (memcpy dst 0 buffer pos (N - pos)) (N - pos) buffer 0 (n - (N - pos)))"
proof -
  let ?N = "unat (rb_size rb)"
  let ?p = "offset AND rb_mask rb"
  from ok have pw: "is_power_of_two (rb_size rb)" and mk: "rb_mask rb = rb_size rb - 1"
    by (simp_all add: ring_ok_def)
  note b = ring_size_bound [OF pw]
  have p: "unat ?p = unat offset mod ?N" by (simp add: mk unat_and_mask_pow2 [OF pw])
  have plt: "unat ?p < ?N" unfolding p using b(1) by simp
  have sum: "unat (?p + sz) = unat ?p + unat sz"
    using plt n b(2) by (simp add: unat_word_ariths)
  have ple: "?p \<le> rb_size rb" using plt by (simp add: word_le_nat_alt)
  have fp: "unat (rb_size rb - ?p) = ?N - unat ?p" by (rule unat_sub [OF ple])
  have c: "?p + sz \<le> rb_size rb \<longleftrightarrow> unat ?p + unat sz \<le> ?N"
    by (simp add: word_le_nat_alt sum)
  have rest: "unat (sz - (rb_size rb - ?p)) = unat sz - (?N - unat ?p)" if "\<not> unat ?p + unat sz \<le> ?N"
  proof -
    have "rb_size rb - ?p \<le> sz" using that by (simp add: word_le_nat_alt fp)
    then show ?thesis by (simp add: unat_sub fp)
  qed
  show ?thesis
    by (simp add: read_bytes_def Let_def c fp rest p)
qed

lemma ring_idx_mod: "pos < N \<Longrightarrow> j \<le> N \<Longrightarrow> (pos + j) mod N = ring_idx N pos j"
proof (cases "pos + j < N")
  case True
  then show ?thesis by (simp add: ring_idx_def)
next
  case False
  assume a: "pos < N" "j \<le> N"
  from False have "(pos + j) mod N = (pos + j - N) mod N" by (simp add: le_mod_geq)
  moreover have "pos + j - N < N" using a by simp
  ultimately show ?thesis using False by (simp add: ring_idx_def)
qed

lemma ring_put_length:
  assumes "length buffer = N" "pos < N" "n \<le> N" "n \<le> length src"
  shows "length (ring_put N buffer src pos n) = N"
  using assms by (simp add: ring_put_def memcpy_length)

lemma ring_put_nth:
  assumes "length buffer = N" "pos < N" "n \<le> N" "n \<le> length src" "i < N"
  shows "ring_put N buffer src pos n ! i =
     (if pos \<le> i \<and> i < pos + n then src ! (i - pos)
      else if i + N < pos + n then src ! (i + N - pos)
      else buffer ! i)"
proof (cases "pos + n \<le> N")
  case True
  with assms show ?thesis by (simp add: ring_put_def memcpy_nth)
next
  case False
  have l1: "length (memcpy buffer pos src 0 (N - pos)) = N"
    using assms False by (simp add: memcpy_length)
  have "ring_put N buffer src pos n ! i =
      memcpy (memcpy buffer pos src 0 (N - pos)) 0 src (N - pos) (n - (N - pos)) ! i"
    using False by (simp add: ring_put_def)
  also have "\<dots> = (if i < n - (N - pos) then src ! (N - pos + i)
                    else memcpy buffer pos src 0 (N - pos) ! i)"
    using assms l1 False by (subst memcpy_nth) auto
  also have "memcpy buffer pos src 0 (N - pos) ! i = (if pos \<le> i then src ! (i - pos) else buffer ! i)"
    using assms False by (subst memcpy_nth) auto
  finally show ?thesis
    using assms False by (auto simp: ac_simps)
qed

lemma ring_get_eq:
  assumes "length buffer = N" "pos < N" "n \<le> N" "n \<le> length dst"
  shows "ring_get N buffer dst pos n = map (\<lambda>j. buffer ! ring_idx N pos j) [0..<n] @ drop n dst"
proof (cases "pos + n \<le> N")
  case True
  have "ring_get N buffer dst pos n = take n (drop pos buffer) @ drop n dst"
    using True by (simp add: ring_get_def memcpy_def)
  moreover have "take n (drop pos buffer) = map (\<lambda>j. buffer ! ring_idx N pos j) [0..<n]"
    using True assms by (auto intro!: nth_equalityI simp: ring_idx_def)
  ultimately show ?thesis by simp
next
  case False
  let ?f = "N - pos"
  have "ring_get N buffer dst pos n = memcpy (memcpy dst 0 buffer pos ?f) ?f buffer 0 (n - ?f)"
    using False by (simp add: ring_get_def)
  also have "\<dots> = (drop pos buffer @ take (n - ?f) buffer) @ drop n dst"
    using False assms by (simp add: memcpy_def)
  also have "drop pos buffer @ take (n - ?f) buffer = map (\<lambda>j. buffer ! ring_idx N pos j) [0..<n]"
    using False assms by (auto intro!: nth_equalityI simp: nth_append ring_idx_def ac_simps)
  finally show ?thesis by simp
qed

lemma ring_get_put_same:
  assumes "length buffer = N" "pos < N" "n \<le> N" "n \<le> length src" "k \<le> n" "k \<le> length dst"
  shows "ring_get N (ring_put N buffer src pos n) dst pos k = take k src @ drop k dst"
proof -
  have len: "length (ring_put N buffer src pos n) = N"
    using assms by (simp add: ring_put_length)
  have "map (\<lambda>j. ring_put N buffer src pos n ! ring_idx N pos j) [0..<k] = take k src"
  proof (rule nth_equalityI)
    show "length (map (\<lambda>j. ring_put N buffer src pos n ! ring_idx N pos j) [0..<k]) = length (take k src)"
      using assms by simp
  next
    fix i assume "i < length (map (\<lambda>j. ring_put N buffer src pos n ! ring_idx N pos j) [0..<k])"
    then have i: "i < k" by simp
    have r: "ring_idx N pos i < N" using assms i by (auto simp: ring_idx_def)
    have "ring_put N buffer src pos n ! ring_idx N pos i = src ! i"
      unfolding ring_put_nth [OF assms(1-4) r]
      using assms(2-5) i by (auto simp: ring_idx_def)
    then show "map (\<lambda>j. ring_put N buffer src pos n ! ring_idx N pos j) [0..<k] ! i = take k src ! i"
      using i by simp
  qed
  then show ?thesis
    using assms len by (simp add: ring_get_eq [where N = N])
qed

lemma ring_get_put_disjoint:
  assumes "length buffer = N" "pos < N" "n \<le> length src" "k + n \<le> N" "k \<le> length dst"
  shows "ring_get N (ring_put N buffer src (ring_idx N pos k) n) dst pos k = ring_get N buffer dst pos k"
proof -
  have p': "ring_idx N pos k < N" using assms by (auto simp: ring_idx_def)
  have n: "n \<le> N" and k: "k \<le> N" using assms by simp_all
  have len: "length (ring_put N buffer src (ring_idx N pos k) n) = N"
    using assms p' n by (simp add: ring_put_length)
  have "map (\<lambda>j. ring_put N buffer src (ring_idx N pos k) n ! ring_idx N pos j) [0..<k]
      = map (\<lambda>j. buffer ! ring_idx N pos j) [0..<k]"
  proof (rule map_cong [OF refl])
    fix j assume "j \<in> set [0..<k]"
    then have j: "j < k" by simp
    have r: "ring_idx N pos j < N" using assms j by (auto simp: ring_idx_def)
    show "ring_put N buffer src (ring_idx N pos k) n ! ring_idx N pos j = buffer ! ring_idx N pos j"
      unfolding ring_put_nth [OF assms(1) p' n assms(3) r]
      using assms(2,4) j by (auto simp: ring_idx_def)
  qed
  then show ?thesis
    using assms len k by (simp add: ring_get_eq [where N = N])
qed

lemma ring_idx_lt: "pos < N \<Longrightarrow> j \<le> N \<Longrightarrow> ring_idx N pos j < N"
  by (auto simp: ring_idx_def)

lemma write_bytes_ring_put:
  assumes "ring_ok rb buffer" "unat sz \<le> unat (rb_size rb)"
  shows "write_bytes rb buffer src sz offset =
           ring_put (unat (rb_size rb)) buffer src (unat offset mod unat (rb_size rb)) (unat sz)"
  by (simp add: write_bytes_nat [OF assms] ring_put_def Let_def)

lemma read_bytes_ring_get:
  assumes "ring_ok rb buffer" "unat sz \<le> unat (rb_size rb)"
  shows "read_bytes rb buffer dst sz offset =
           ring_get (unat (rb_size rb)) buffer dst (unat offset mod unat (rb_size rb)) (unat sz)"
  by (simp add: read_bytes_nat [OF assms] ring_get_def Let_def)

section \<open>Configuration\<close>

lemma is_valid_iff:
  "is_valid c \<longleftrightarrow> is_power_of_two (ring_buffer_size c) \<and> max_message_size c < ring_buffer_size c div 2
     \<and> 4096 \<le> ring_buffer_size c \<and> 64 \<le> max_message_size c"
  by (auto simp: is_valid_def)

lemma is_valid_example_config: "is_valid example_config"
  by (simp add: is_valid_iff example_config_def is_power_of_two_def)

text \<open>
  C5 (as amended). Every configuration the validator accepts has
  \<open>max_message_size < ring_buffer_size / 2\<close>, and the frame of a maximum-size message,
  \<open>sizeof(MessageHeader) + align_up(max_message_size, 8)\<close> bytes, fits in the ring (the sum
  does not wrap and is at most \<open>ring_buffer_size\<close>). The validator does not bound the frame by
  half the ring.
\<close>

theorem valid_config_frame_fits_ring:
  assumes "is_valid c"
  shows "max_message_size c < ring_buffer_size c div 2
       \<and> unat sizeof_MessageHeader + unat (align_up (max_message_size c) 8) \<le> unat (ring_buffer_size c)"
proof -
  from assms have lt: "max_message_size c < ring_buffer_size c div 2"
    and big: "4096 \<le> ring_buffer_size c" by (simp_all add: is_valid_iff)
  have rs: "unat (ring_buffer_size c) < 2 ^ 64" using unsigned_less [of "ring_buffer_size c"] by simp
  from lt have m: "unat (max_message_size c) < unat (ring_buffer_size c) div 2"
    by (simp add: word_less_nat_alt unat_div)
  from big have b: "4096 \<le> unat (ring_buffer_size c)" by (simp add: word_le_nat_alt)
  have "unat (align_up (max_message_size c) 8) = 8 * ((unat (max_message_size c) + 7) div 8)"
    by (rule unat_align_up_8) (use m rs in simp)
  with m b lt show ?thesis by (simp add: sizeof_MessageHeader_def)
qed

theorem valid_config_frame_fits_ring_witness:
  "is_valid example_config
   \<and> max_message_size example_config < ring_buffer_size example_config div 2
   \<and> unat sizeof_MessageHeader + unat (align_up (max_message_size example_config) 8)
        \<le> unat (ring_buffer_size example_config)"
  using valid_config_frame_fits_ring [OF is_valid_example_config] is_valid_example_config
  by blast

text \<open>C5 as stated fails: a 4096-byte ring with \<open>max_message_size = 2047\<close> is accepted, and
  \<open>2047 + 32 > 2048\<close>.\<close>

theorem half_ring_bound_counterexample:
  "is_valid \<lparr> ring_buffer_size = 4096, max_message_size = 2047, flags = 0, timeout_us = 0,
              enable_checksum = False, overwrite_on_full = False \<rparr>
   \<and> \<not> ((2047 :: size_t) + sizeof_MessageHeader \<le> 4096 div 2)"
  by (simp add: is_valid_iff is_power_of_two_def sizeof_MessageHeader_def)

text \<open>
  C9 (as amended). The validator does not look at \<open>flags\<close>: whether a configuration is valid,
  and whether \<open>Channel::open\<close> succeeds with it, is the same for every value of \<open>flags\<close>,
  reserved bits included.
\<close>

section \<open>The version gate\<close>

text \<open>The header of a region initialized by a peer whose protocol version packs to \<open>v\<close>.\<close>

lemma validate_header_version:
  "validate_header (Some ((initialize_header pid h 4096 0)\<lparr> hdr_version := v \<rparr>))
     = (if (1 :: u16) = ucast (drop_bit 16 v AND 0xFFFF) then Success else VersionMismatch)"
  by (simp add: validate_header_def initialize_header_def zero_SharedMemoryHeader_def
      is_compatible_with_def PROTOCOL_VERSION_def Let_def)

text \<open>With a minor below 256 the packing keeps the major, and the gate compares majors.\<close>

lemma unpack_major:
  assumes "unat (minor v) < 256"
  shows "(ucast (drop_bit 16 (as_uint32 v) AND 0xFFFF) :: u16) = major v"
proof -
  from assms have "minor v < 2 ^ 8" by (simp add: word_less_nat_alt)
  then have "minor v AND mask 8 = minor v" by (rule less_mask_eq)
  then have m: "take_bit 8 (minor v) = minor v" by (simp only: take_bit_eq_mask)
  have k: "(0xFFFF :: u32) = mask 16" by (simp add: mask_eq_exp_minus_1)
  have "(ucast (drop_bit 16 (push_bit 16 (ucast (major v)) OR push_bit 8 (ucast (take_bit 8 (minor v)))
           OR (ucast (patch v) :: u32)) AND mask 16) :: u16) = major v"
    by (rule bit_word_eqI) (auto simp: bit_simps dest: bit_imp_le_length)
  then show ?thesis by (simp only: as_uint32_def m k)
qed

lemma version_gate_small_minor:
  assumes "unat (minor v) < 256"
  shows "validate_header (Some ((initialize_header pid h 4096 0)\<lparr> hdr_version := as_uint32 v \<rparr>))
           = (if major v = 1 then Success else VersionMismatch)"
  by (simp only: validate_header_version unpack_major [OF assms] eq_commute [of 1 "major v"])

text \<open>
  C6 (the code departs from it). \<open>Version::is_compatible_with\<close> accepts \<open>1.512.0\<close> against
  the protocol version \<open>1.0.0\<close>, but a header whose version field was packed from \<open>1.512.0\<close>
  by \<open>as_uint32\<close> is refused with \<open>VersionMismatch\<close>: the minor, shifted by 8, reaches into
  the major's bits. Conversely \<open>0.256.0\<close> is not compatible, and a header packed from it
  passes validation.
\<close>

theorem packed_minor_corrupts_major:
  "is_compatible_with PROTOCOL_VERSION \<lparr> major = 1, minor = 512, patch = 0 \<rparr>
   \<and> as_uint32 \<lparr> major = 1, minor = 512, patch = 0 \<rparr> = 0x30000
   \<and> validate_header (Some ((initialize_header 7 zero_SharedMemoryHeader 4096 0)
         \<lparr> hdr_version := as_uint32 \<lparr> major = 1, minor = 512, patch = 0 \<rparr> \<rparr>)) = VersionMismatch
   \<and> \<not> is_compatible_with PROTOCOL_VERSION \<lparr> major = 0, minor = 256, patch = 0 \<rparr>
   \<and> as_uint32 \<lparr> major = 0, minor = 256, patch = 0 \<rparr> = 0x10000
   \<and> validate_header (Some ((initialize_header 7 zero_SharedMemoryHeader 4096 0)
         \<lparr> hdr_version := as_uint32 \<lparr> major = 0, minor = 256, patch = 0 \<rparr> \<rparr>)) = Success"
  by (simp add: validate_header_version is_compatible_with_def PROTOCOL_VERSION_def as_uint32_def)


section \<open>Writing a frame and reading it back\<close>

text \<open>
  The general statement behind the round trip: on an empty ring, if neither the frame size
  nor the new write index wraps around in 64 bits, a successful \<open>try_write\<close> followed by
  \<open>try_read\<close> delivers the first \<open>k\<close> bytes of the payload and reports \<open>k\<close>, where \<open>k\<close> is
  the payload size after its trip through the 32-bit \<open>size\<close> field of the frame header.
\<close>

lemma try_write_then_try_read:
  fixes rb :: RingBuffer and rg :: Region and data buf :: "u8 list"
    and data_size cap :: size_t and now :: u64
  defines "w \<equiv> write_index (hdr rg)"
  defines "k \<equiv> (ucast (ucast data_size :: u32) :: u64)"
  defines "rg' \<equiv> snd (try_write rb data data_size now rg)"
  assumes ok: "ring_ok rb (ring rg)"
    and empty: "read_index (hdr rg) = write_index (hdr rg)"
    and len: "length data = unat data_size"
    and nowrap1: "unat data_size + 7 < 2 ^ 64"
    and nowrap2: "unat (write_index (hdr rg)) + (32 + unat (align_up data_size 8)) < 2 ^ 64"
    and written: "fst (try_write rb data data_size now rg)"
    and cap: "k \<le> cap" "unat cap \<le> length buf"
  shows "try_read rb buf cap rg' =
           (True, take (unat k) data @ drop (unat k) buf, k,
            rg'\<lparr> hdr := (hdr rg')\<lparr> read_index := w + (sizeof_MessageHeader + align_up k 8) \<rparr> \<rparr>)"
    and "rg' = rg\<lparr> hdr := (hdr rg)\<lparr> write_index := w + (sizeof_MessageHeader + align_up data_size 8) \<rparr>,
                   ring := ring rg' \<rparr>"
proof -
  let ?N = "unat (rb_size rb)"
  let ?n = "unat data_size"
  let ?pos = "unat w mod ?N"
  let ?total = "sizeof_MessageHeader + align_up data_size 8"
  let ?mh = "\<lparr> msg_magic = MAGIC, msg_size = ucast data_size, msg_sequence = w,
               msg_timestamp = now, msg_checksum = 0, msg_reserved = 0 \<rparr>"
  let ?enc = "encode_MessageHeader ?mh"
  let ?ring1 = "write_bytes rb (ring rg) ?enc sizeof_MessageHeader w"
  let ?ring2 = "write_bytes rb ?ring1 data data_size (w + sizeof_MessageHeader)"
  from ok have pw: "is_power_of_two (rb_size rb)" and lr: "length (ring rg) = ?N"
    by (simp_all add: ring_ok_def)
  have plt: "?pos < ?N" using ring_size_bound(1) [OF pw] by simp
  have au: "unat (align_up data_size 8) = 8 * ((?n + 7) div 8)"
    by (rule unat_align_up_8 [OF nowrap1])
  have s32: "unat sizeof_MessageHeader = 32" by (simp add: sizeof_MessageHeader_def)
  have tot: "unat ?total = 32 + unat (align_up data_size 8)"
  proof -
    have "unat sizeof_MessageHeader + unat (align_up data_size 8) < 2 ^ LENGTH(64)"
      using nowrap2 by (simp add: s32)
    then have "unat ?total = unat sizeof_MessageHeader + unat (align_up data_size 8)"
      by (simp only: unat_add_lem)
    then show ?thesis by (simp only: s32)
  qed
  have fits: "unat ?total \<le> ?N"
  proof -
    from written have "\<not> rb_size rb - (w - w) < ?total"
      by (simp add: try_write_def Let_def w_def empty split: if_splits)
    then show ?thesis by (simp add: word_less_nat_alt)
  qed
  have n32: "32 + ?n \<le> ?N" using fits tot au by simp
  have rg': "rg' = rg\<lparr> hdr := (hdr rg)\<lparr> write_index := w + ?total \<rparr>, ring := ?ring2 \<rparr>"
    using written by (simp add: rg'_def try_write_def Let_def w_def split: if_splits)
  then show "rg' = rg\<lparr> hdr := (hdr rg)\<lparr> write_index := w + ?total \<rparr>, ring := ring rg' \<rparr>"
    by simp
  have r1: "?ring1 = ring_put ?N (ring rg) ?enc ?pos 32"
    using n32 by (simp add: write_bytes_ring_put [OF ok] s32)
  have l1: "length ?ring1 = ?N"
    unfolding r1 using lr plt n32 by (simp add: ring_put_length)
  have ok1: "ring_ok rb ?ring1" using ok l1 by (simp add: ring_ok_def)
  have w32: "unat (w + sizeof_MessageHeader) = unat w + 32"
  proof -
    have "unat w + unat sizeof_MessageHeader < 2 ^ LENGTH(64)"
      using nowrap2 by (simp add: s32 w_def)
    then have "unat (w + sizeof_MessageHeader) = unat w + unat sizeof_MessageHeader"
      by (simp only: unat_add_lem)
    then show ?thesis by (simp only: s32)
  qed
  have pos': "unat (w + sizeof_MessageHeader) mod ?N = ring_idx ?N ?pos 32"
  proof -
    have "(unat w + 32) mod ?N = (?pos + 32) mod ?N" by (simp add: mod_add_left_eq)
    also have "\<dots> = ring_idx ?N ?pos 32" using plt n32 by (intro ring_idx_mod) simp_all
    finally show ?thesis by (simp only: w32)
  qed
  have r2: "?ring2 = ring_put ?N ?ring1 data (ring_idx ?N ?pos 32) ?n"
    using n32 by (simp add: write_bytes_ring_put [OF ok1] pos')
  have p'lt: "ring_idx ?N ?pos 32 < ?N" by (rule ring_idx_lt [OF plt]) (use n32 in simp)
  have l2: "length ?ring2 = ?N"
    unfolding r2 using l1 p'lt n32 len by (simp add: ring_put_length)
  have ok2: "ring_ok rb ?ring2" using ok l2 by (simp add: ring_ok_def)
  have hdr_read: "read_MessageHeader rb ?ring2 w = ?mh"
  proof -
    have "read_bytes rb ?ring2 (replicate 32 0) sizeof_MessageHeader w
            = ring_get ?N ?ring2 (replicate 32 0) ?pos 32"
      using n32 by (simp add: read_bytes_ring_get [OF ok2] s32)
    also have "\<dots> = ring_get ?N ?ring1 (replicate 32 0) ?pos 32"
      unfolding r2 using l1 plt len n32 by (intro ring_get_put_disjoint) simp_all
    also have "\<dots> = take 32 ?enc @ drop 32 (replicate 32 0)"
      unfolding r1 using lr plt n32 by (intro ring_get_put_same) simp_all
    finally show ?thesis by (simp add: read_MessageHeader_def)
  qed
  have uk: "unat k = ?n mod 2 ^ 32" by (simp add: k_def unat_ucast_32_64)
  then have kn: "unat k \<le> ?n" by simp
  have payload_read: "read_bytes rb ?ring2 buf k (w + sizeof_MessageHeader)
                        = take (unat k) data @ drop (unat k) buf"
  proof -
    have "read_bytes rb ?ring2 buf k (w + sizeof_MessageHeader)
            = ring_get ?N ?ring2 buf (ring_idx ?N ?pos 32) (unat k)"
      using n32 kn by (simp add: read_bytes_ring_get [OF ok2] pos')
    also have "\<dots> = take (unat k) data @ drop (unat k) buf"
      unfolding r2 using l1 p'lt len n32 kn cap
      by (intro ring_get_put_same) (simp_all add: word_le_nat_alt)
    finally show ?thesis .
  qed
  have adv: "\<not> w + ?total \<le> w"
  proof -
    have "unat w + unat ?total < 2 ^ LENGTH(64)"
      using nowrap2 unfolding tot w_def by simp
    then have "unat (w + ?total) = unat w + unat ?total"
      by (simp only: unat_add_lem)
    then show ?thesis by (simp add: word_le_nat_alt tot)
  qed
  have kc: "\<not> cap < k" using cap(1) by simp
  show "try_read rb buf cap rg' =
           (True, take (unat k) data @ drop (unat k) buf, k,
            rg'\<lparr> hdr := (hdr rg')\<lparr> read_index := w + (sizeof_MessageHeader + align_up k 8) \<rparr> \<rparr>)"
    unfolding rg'
    by (simp add: try_read_def Let_def empty [folded w_def] adv hdr_read
          payload_read [unfolded k_def] kc [unfolded k_def] k_def)
qed

text \<open>
  C1 (as amended). Take a ring as the constructor sets it up, with no unread frame
  (\<open>read_index = write_index\<close>), a payload \<open>P\<close> of fewer than \<open>2^32\<close> bytes, and a write index
  that the frame does not carry past \<open>2^64 - 1\<close>. Then after a successful \<open>try_write\<close> of \<open>P\<close>,
  wherever in the ring the frame lies, a \<open>try_read\<close> into a buffer of at least \<open>P\<close>'s length
  succeeds, puts \<open>P\<close> at the front of the buffer, reports \<open>P\<close>'s length, and leaves the ring
  empty again.
\<close>

theorem try_write_try_read_roundtrip:
  assumes "ring_ok rb (ring rg)"
    and "read_index (hdr rg) = write_index (hdr rg)"
    and "length P = unat data_size"
    and "unat data_size < 2 ^ 32"
    and "unat (write_index (hdr rg)) + 32 + unat (align_up data_size 8) < 2 ^ 64"
    and "fst (try_write rb P data_size now rg)"
    and "data_size \<le> cap" and "unat cap \<le> length buf"
  shows "try_read rb buf cap (snd (try_write rb P data_size now rg)) =
           (True, P @ drop (length P) buf, data_size,
            (snd (try_write rb P data_size now rg))
              \<lparr> hdr := (hdr (snd (try_write rb P data_size now rg)))
                     \<lparr> read_index := write_index (hdr (snd (try_write rb P data_size now rg))) \<rparr> \<rparr>)"
proof -
  let ?rg' = "snd (try_write rb P data_size now rg)"
  have k: "(ucast (ucast data_size :: u32) :: u64) = data_size"
    by (rule ucast_32_64_id [OF assms(4)])
  have n1: "unat data_size + 7 < 2 ^ 64" using assms(4) by simp
  have n2: "unat (write_index (hdr rg)) + (32 + unat (align_up data_size 8)) < 2 ^ 64"
    using assms(5) by simp
  have c: "(ucast (ucast data_size :: u32) :: u64) \<le> cap" using assms(7) by (simp only: k)
  note rt = try_write_then_try_read [OF assms(1,2,3) n1 n2 assms(6) c assms(8)]
  have wi: "write_index (hdr ?rg') = write_index (hdr rg) + (sizeof_MessageHeader + align_up data_size 8)"
    by (subst rt(2)) simp
  show ?thesis
    using rt(1) by (simp add: k assms(3) wi)
qed

theorem try_write_try_read_roundtrip_witness:
  "ring_ok (RingBuffer_new 64) (ring (region_at 40 40 (replicate 64 0)))
   \<and> length [0x41, 0x42, 0x43 :: u8] = unat (3 :: size_t)
   \<and> unat ((40 :: u64) AND rb_mask (RingBuffer_new 64)) + 32 > unat (rb_size (RingBuffer_new 64))
   \<and> fst (try_write (RingBuffer_new 64) [0x41, 0x42, 0x43] 3 9 (region_at 40 40 (replicate 64 0)))
   \<and> try_read (RingBuffer_new 64) (replicate 8 0) 8
         (snd (try_write (RingBuffer_new 64) [0x41, 0x42, 0x43] 3 9 (region_at 40 40 (replicate 64 0))))
       = (True, [0x41, 0x42, 0x43] @ drop (length [0x41, 0x42, 0x43 :: u8]) (replicate 8 0), 3,
          (snd (try_write (RingBuffer_new 64) [0x41, 0x42, 0x43] 3 9 (region_at 40 40 (replicate 64 0))))
            \<lparr> hdr := (hdr (snd (try_write (RingBuffer_new 64) [0x41, 0x42, 0x43] 3 9
                               (region_at 40 40 (replicate 64 0)))))
                 \<lparr> read_index := write_index (hdr (snd (try_write (RingBuffer_new 64) [0x41, 0x42, 0x43] 3 9
                               (region_at 40 40 (replicate 64 0))))) \<rparr> \<rparr>)"
proof -
  let ?rb = "RingBuffer_new 64"
  let ?rg = "region_at 40 40 (replicate 64 0)"
  let ?P = "[0x41, 0x42, 0x43 :: u8]"
  have h1: "ring_ok ?rb (ring ?rg)"
    by (simp add: ring_ok_def RingBuffer_new_def region_at_def is_power_of_two_def)
  have h2: "read_index (hdr ?rg) = write_index (hdr ?rg)" by (simp add: region_at_def)
  have h3: "length ?P = unat (3 :: size_t)" by simp
  have h4: "unat (3 :: size_t) < 2 ^ 32" by simp
  have h5: "unat (write_index (hdr ?rg)) + 32 + unat (align_up 3 8) < 2 ^ 64"
    by (simp add: region_at_def align_up_def)
  have h6: "fst (try_write ?rb ?P 3 9 ?rg)"
    by (simp add: try_write_def Let_def RingBuffer_new_def region_at_def align_up_def
        sizeof_MessageHeader_def)
  have h7: "(3 :: size_t) \<le> 8" by simp
  have h8: "unat (8 :: size_t) \<le> length (replicate 8 (0 :: u8))" by simp
  have s: "unat ((40 :: u64) AND rb_mask ?rb) + 32 > unat (rb_size ?rb)"
    by (simp add: RingBuffer_new_def)
  from try_write_try_read_roundtrip [OF h1 h2 h3 h4 h5 h6 h7 h8] h1 h3 h6 s
  show ?thesis by blast
qed

text \<open>
  C1 as stated fails in three ways. (a) At \<open>write_index = read_index = 2^64 - 8\<close> the write
  succeeds and wraps the write index around to 32; \<open>try_read\<close> then compares
  \<open>read_index >= write_index\<close>, takes the ring for empty and delivers nothing. (b) A payload
  of \<open>2^32\<close> bytes (within the \<open>max_message_size\<close> of a valid configuration with a
  \<open>2^34\<close>-byte ring) is written with \<open>size = 0\<close> in its frame header, and \<open>try_read\<close> reports
  length 0 and leaves the caller's buffer as it was. (c) When the ring already holds an unread
  frame, the \<open>try_read\<close> after the write delivers that older frame, not \<open>P\<close>.
\<close>

theorem roundtrip_counterexample:
  "(fst (try_write (RingBuffer_new 64) [0x41, 0x42, 0x43] 3 9
          (region_at 18446744073709551608 18446744073709551608 (replicate 64 0)))
    \<and> try_read (RingBuffer_new 64) (replicate 8 0) 8
          (snd (try_write (RingBuffer_new 64) [0x41, 0x42, 0x43] 3 9
                 (region_at 18446744073709551608 18446744073709551608 (replicate 64 0))))
        = (False, replicate 8 0, 8,
           snd (try_write (RingBuffer_new 64) [0x41, 0x42, 0x43] 3 9
                 (region_at 18446744073709551608 18446744073709551608 (replicate 64 0)))))
   \<and> (is_valid \<lparr> ring_buffer_size = 17179869184, max_message_size = 4294967296, flags = 0,
                  timeout_us = 0, enable_checksum = False, overwrite_on_full = False \<rparr>
      \<and> length (replicate 4294967296 (0x41 :: u8)) = unat (4294967296 :: size_t)
      \<and> fst (try_write (RingBuffer_new 17179869184) (replicate 4294967296 0x41) 4294967296 9
                (region_at 0 0 (replicate 17179869184 0)))
      \<and> fst (snd (try_read (RingBuffer_new 17179869184) (replicate 4294967296 0) 4294967296
                (snd (try_write (RingBuffer_new 17179869184) (replicate 4294967296 0x41) 4294967296 9
                       (region_at 0 0 (replicate 17179869184 0))))))
          = replicate 4294967296 0
      \<and> fst (snd (snd (try_read (RingBuffer_new 17179869184) (replicate 4294967296 0) 4294967296
                (snd (try_write (RingBuffer_new 17179869184) (replicate 4294967296 0x41) 4294967296 9
                       (region_at 0 0 (replicate 17179869184 0)))))))
          = 0)
   \<and> (fst (try_write (RingBuffer_new 128) [0x01, 0x02] 2 9 (one_frame_region 128 MAGIC 3))
      \<and> fst (snd (try_read (RingBuffer_new 128) (replicate 8 0) 8
                (snd (try_write (RingBuffer_new 128) [0x01, 0x02] 2 9 (one_frame_region 128 MAGIC 3)))))
          = [0x41, 0x42, 0x43] @ replicate 5 0
      \<and> fst (snd (snd (try_read (RingBuffer_new 128) (replicate 8 0) 8
                (snd (try_write (RingBuffer_new 128) [0x01, 0x02] 2 9 (one_frame_region 128 MAGIC 3))))))
          = 3)"
proof -
  have a: "fst (try_write (RingBuffer_new 64) [0x41, 0x42, 0x43] 3 9
          (region_at 18446744073709551608 18446744073709551608 (replicate 64 0)))
    \<and> try_read (RingBuffer_new 64) (replicate 8 0) 8
          (snd (try_write (RingBuffer_new 64) [0x41, 0x42, 0x43] 3 9
                 (region_at 18446744073709551608 18446744073709551608 (replicate 64 0))))
        = (False, replicate 8 0, 8,
           snd (try_write (RingBuffer_new 64) [0x41, 0x42, 0x43] 3 9
                 (region_at 18446744073709551608 18446744073709551608 (replicate 64 0))))"
    by (simp add: try_read_def try_write_def Let_def RingBuffer_new_def region_at_def align_up_def
        sizeof_MessageHeader_def)
  let ?rb = "RingBuffer_new 17179869184"
  let ?rg = "region_at 0 0 (replicate 17179869184 0)"
  let ?P = "replicate 4294967296 (0x41 :: u8)"
  let ?buf = "replicate 4294967296 (0 :: u8)"
  have v: "is_valid \<lparr> ring_buffer_size = 17179869184, max_message_size = 4294967296, flags = 0,
                  timeout_us = 0, enable_checksum = False, overwrite_on_full = False \<rparr>"
    by (simp add: is_valid_iff is_power_of_two_def)
  have h1: "ring_ok ?rb (ring ?rg)"
    by (simp add: ring_ok_def RingBuffer_new_def region_at_def is_power_of_two_def)
  have h2: "read_index (hdr ?rg) = write_index (hdr ?rg)" by (simp add: region_at_def)
  have h3: "length ?P = unat (4294967296 :: size_t)" by simp
  have n1: "unat (4294967296 :: size_t) + 7 < 2 ^ 64" by simp
  have n2: "unat (write_index (hdr ?rg)) + (32 + unat (align_up 4294967296 8)) < 2 ^ 64"
    by (simp add: region_at_def align_up_def)
  have h6: "fst (try_write ?rb ?P 4294967296 9 ?rg)"
    by (simp add: try_write_def Let_def RingBuffer_new_def region_at_def align_up_def
        sizeof_MessageHeader_def)
  have k: "(ucast (ucast (4294967296 :: u64) :: u32) :: u64) = 0" by simp
  have c1: "(ucast (ucast (4294967296 :: u64) :: u32) :: u64) \<le> 4294967296" by (simp only: k) simp
  have c2: "unat (4294967296 :: size_t) \<le> length ?buf" by simp
  note rt = try_write_then_try_read(1) [OF h1 h2 h3 n1 n2 h6 c1 c2]
  have b1: "fst (snd (try_read ?rb ?buf 4294967296 (snd (try_write ?rb ?P 4294967296 9 ?rg)))) = ?buf"
    by (simp add: rt k)
  have b2: "fst (snd (snd (try_read ?rb ?buf 4294967296 (snd (try_write ?rb ?P 4294967296 9 ?rg))))) = 0"
    by (simp add: rt k)
  have c: "fst (try_write (RingBuffer_new 128) [0x01, 0x02] 2 9 (one_frame_region 128 MAGIC 3))
      \<and> fst (snd (try_read (RingBuffer_new 128) (replicate 8 0) 8
                (snd (try_write (RingBuffer_new 128) [0x01, 0x02] 2 9 (one_frame_region 128 MAGIC 3)))))
          = [0x41, 0x42, 0x43] @ replicate 5 0
      \<and> fst (snd (snd (try_read (RingBuffer_new 128) (replicate 8 0) 8
                (snd (try_write (RingBuffer_new 128) [0x01, 0x02] 2 9 (one_frame_region 128 MAGIC 3))))))
          = 3"
    by (simp add: try_write_def try_read_def Let_def RingBuffer_new_def one_frame_region_def
        region_at_def align_up_def sizeof_MessageHeader_def write_bytes_def read_bytes_def
        read_MessageHeader_def memcpy_def example_frame_header_def)
  from a v h3 h6 b1 b2 c show ?thesis by blast
qed

section \<open>Opening a channel\<close>

lemma Channel_open_fresh:
  assumes "is_valid config"
    and "create_or_open (align_up sizeof_SharedMemoryHeader CACHE_LINE_SIZE + ring_buffer_size config) = Inr rg"
    and "hdr_magic (hdr rg) \<noteq> MAGIC"
  shows "Channel_open create_or_open pid name config
           = Inr (source_destroyed (Channel_new name config
                    (align_up sizeof_SharedMemoryHeader CACHE_LINE_SIZE + ring_buffer_size config)),
                  rg\<lparr> hdr := initialize_header pid (hdr rg) (ring_buffer_size config) (flags config) \<rparr>)"
proof -
  from assms(1) have p: "ring_buffer_size config \<noteq> 0"
      "ring_buffer_size config AND (ring_buffer_size config - 1) = 0"
    by (simp_all add: is_valid_iff is_power_of_two_def)
  have "sender_handshake (Some (initialize_header pid (hdr rg) (ring_buffer_size config) (flags config))) = Success"
    using p
    by (simp add: sender_handshake_def validate_header_def initialize_header_def
        zero_SharedMemoryHeader_def is_compatible_with_def PROTOCOL_VERSION_def as_uint32_def)
  with assms show ?thesis
    by (simp add: Channel_open_def Let_def is_error_def)
qed

lemma zero_mapping_example:
  "zero_mapping (align_up sizeof_SharedMemoryHeader CACHE_LINE_SIZE + ring_buffer_size example_config)
     = Inr (zero_region 4096)"
  by (simp add: zero_mapping_def align_up_def sizeof_SharedMemoryHeader_def CACHE_LINE_SIZE_def
      example_config_def)

lemma zero_region_not_initialized: "hdr_magic (hdr (zero_region n)) \<noteq> MAGIC"
  by (simp add: zero_region_def zero_SharedMemoryHeader_def MAGIC_def)

lemma Channel_open_example:
  "Channel_open zero_mapping pid ''demo'' example_config
     = Inr (example_channel,
            (zero_region 4096)\<lparr> hdr := initialize_header pid zero_SharedMemoryHeader 4096 0 \<rparr>)"
proof -
  have t: "align_up sizeof_SharedMemoryHeader CACHE_LINE_SIZE + ring_buffer_size example_config = 4224"
    by (simp add: align_up_def sizeof_SharedMemoryHeader_def CACHE_LINE_SIZE_def example_config_def)
  show ?thesis
    unfolding Channel_open_fresh [where create_or_open = zero_mapping,
        OF is_valid_example_config zero_mapping_example zero_region_not_initialized]
    unfolding t
    by (simp add: example_channel_def zero_region_def example_config_def)
qed

lemma example_channel_simps:
  "is_open example_channel"
  "\<not> ch_mapped example_channel"
  "ch_ring_buffer example_channel = RingBuffer_new 4096"
  "source_destroyed example_channel = example_channel"
  by (simp_all add: example_channel_def Channel_new_def is_open_def source_destroyed_def
      example_config_def)

lemma example_sender_simps:
  "snd_channel example_sender = Some example_channel"
  "max_message_size (snd_config example_sender) = 1024"
  "is_ready example_sender"
  by (simp_all add: example_sender_def example_config_def is_ready_def example_channel_simps)

lemma example_receiver_simps:
  "rcv_channel example_receiver = Some example_channel"
  by (simp add: example_receiver_def)

text \<open>
  C9 (as amended). The validator does not look at \<open>flags\<close>: whether a configuration is valid,
  and whether \<open>Channel::open\<close> succeeds with it, is the same for every value of \<open>flags\<close>,
  reserved bits included; and when \<open>Channel::open\<close> finds an uninitialized region under a
  valid configuration, it succeeds and the \<open>flags\<close> field of the header it leaves in shared
  memory is the configuration's \<open>flags\<close>, unchanged.
\<close>

theorem flags_do_not_affect_open:
  "is_valid (c\<lparr> flags := f \<rparr>) = is_valid c
   \<and> isl (Channel_open create_or_open pid name (c\<lparr> flags := f \<rparr>))
       = isl (Channel_open create_or_open pid name c)
   \<and> (is_valid c
        \<and> create_or_open (align_up sizeof_SharedMemoryHeader CACHE_LINE_SIZE + ring_buffer_size c) = Inr rg
        \<and> hdr_magic (hdr rg) \<noteq> MAGIC
       \<longrightarrow> (\<exists>ch rg'. Channel_open create_or_open pid name (c\<lparr> flags := f \<rparr>) = Inr (ch, rg')
                     \<and> hdr_flags (hdr rg') = f \<and> ring rg' = ring rg))"
proof -
  have v: "is_valid (c\<lparr> flags := f \<rparr>) = is_valid c" by (simp add: is_valid_def)
  have i: "sender_handshake (Some (initialize_header pid h (ring_buffer_size c) x)) = Success"
    if "is_valid c" for h x
    using that
    by (simp add: sender_handshake_def validate_header_def initialize_header_def
        zero_SharedMemoryHeader_def is_compatible_with_def PROTOCOL_VERSION_def as_uint32_def
        is_valid_iff is_power_of_two_def)
  have o: "isl (Channel_open create_or_open pid name (c\<lparr> flags := f \<rparr>))
       = isl (Channel_open create_or_open pid name c)"
    by (auto simp: Channel_open_def v Let_def i is_error_def split: sum.splits)
  have "\<exists>ch rg'. Channel_open create_or_open pid name (c\<lparr> flags := f \<rparr>) = Inr (ch, rg')
                     \<and> hdr_flags (hdr rg') = f \<and> ring rg' = ring rg"
    if a: "is_valid c"
      "create_or_open (align_up sizeof_SharedMemoryHeader CACHE_LINE_SIZE + ring_buffer_size c) = Inr rg"
      "hdr_magic (hdr rg) \<noteq> MAGIC"
  proof -
    from a(1) have a1: "is_valid (c\<lparr> flags := f \<rparr>)" by (simp only: v)
    from a(2) have a2: "create_or_open (align_up sizeof_SharedMemoryHeader CACHE_LINE_SIZE
                          + ring_buffer_size (c\<lparr> flags := f \<rparr>)) = Inr rg" by simp
    show ?thesis
      unfolding Channel_open_fresh [where create_or_open = create_or_open, OF a1 a2 a(3)]
      by (simp add: initialize_header_def)
  qed
  with v o show ?thesis by blast
qed

theorem flags_do_not_affect_open_witness:
  "is_valid example_config
   \<and> zero_mapping (align_up sizeof_SharedMemoryHeader CACHE_LINE_SIZE + ring_buffer_size example_config)
       = Inr (zero_region 4096)
   \<and> hdr_magic (hdr (zero_region 4096)) \<noteq> MAGIC
   \<and> (\<exists>ch rg'. Channel_open zero_mapping 7 ''demo'' (example_config\<lparr> flags := 48 \<rparr>) = Inr (ch, rg')
                     \<and> hdr_flags (hdr rg') = 48 \<and> ring rg' = ring (zero_region 4096))"
  using flags_do_not_affect_open [where c = example_config and f = 48 and create_or_open = zero_mapping
      and pid = 7 and name = "''demo''" and rg = "zero_region 4096"]
    is_valid_example_config zero_mapping_example zero_region_not_initialized [of 4096]
  by blast

text \<open>C9 as stated fails: with \<open>flags = 16\<close> (bit 4, reserved) the configuration is valid and
  \<open>Channel::open\<close> succeeds on a fresh region, leaving 16 in the header's \<open>flags\<close> field.\<close>

theorem reserved_flag_counterexample:
  "is_valid (example_config\<lparr> flags := 16 \<rparr>)
   \<and> Channel_open zero_mapping 7 ''demo'' (example_config\<lparr> flags := 16 \<rparr>)
     = Inr (source_destroyed (Channel_new ''demo'' (example_config\<lparr> flags := 16 \<rparr>) 4224),
            (zero_region 4096)\<lparr> hdr := initialize_header 7 zero_SharedMemoryHeader 4096 16 \<rparr>)
   \<and> hdr_flags (initialize_header 7 zero_SharedMemoryHeader 4096 16) = 16"
  by (simp add: Channel_open_def is_valid_iff is_power_of_two_def example_config_def
      zero_mapping_def zero_region_def Let_def align_up_def sizeof_SharedMemoryHeader_def
      CACHE_LINE_SIZE_def is_error_def sender_handshake_def validate_header_def
      initialize_header_def zero_SharedMemoryHeader_def MAGIC_def is_compatible_with_def
      PROTOCOL_VERSION_def as_uint32_def)

section \<open>Sending on a sender that is not ready\<close>

lemma close_not_open: "\<not> is_open (close ch)"
  by (simp add: is_open_def close_def)

lemma ring_ok_RingBuffer_new:
  "is_power_of_two sz \<Longrightarrow> length buffer = unat sz \<Longrightarrow> ring_ok (RingBuffer_new sz) buffer"
  by (simp add: ring_ok_def RingBuffer_new_def)

text \<open>
  C10. A sender whose \<open>Channel::open\<close> failed in the constructor, or whose channel is closed,
  answers every \<open>send_bytes\<close> with \<open>ChannelClosed\<close> as an ordinary result (the call returns)
  and leaves the shared memory as it was.
\<close>

theorem send_on_unready_sender_is_ChannelClosed:
  assumes "(\<exists>e. Channel_open create_or_open pid name config = Inl e
                \<and> s = fst (Sender_new create_or_open pid name config))
           \<or> (\<exists>ch. snd_channel s = Some ch \<and> \<not> is_open ch)"
  shows "\<not> is_ready s \<and> send_bytes s data sz now rg = Returned (ChannelClosed, rg)"
proof -
  from assms have "\<not> is_ready s"
    by (auto simp: is_ready_def Sender_new_def)
  then show ?thesis by (simp add: send_bytes_def)
qed

theorem send_on_unready_sender_is_ChannelClosed_witness:
  "Channel_open zero_mapping 7 ''demo'' (example_config\<lparr> ring_buffer_size := 100 \<rparr>) = Inl InvalidOperation
   \<and> \<not> is_ready (fst (Sender_new zero_mapping 7 ''demo'' (example_config\<lparr> ring_buffer_size := 100 \<rparr>)))
   \<and> send_bytes (fst (Sender_new zero_mapping 7 ''demo'' (example_config\<lparr> ring_buffer_size := 100 \<rparr>)))
         [0x41, 0x42, 0x43] 3 9 (zero_region 4096)
       = Returned (ChannelClosed, zero_region 4096)"
proof -
  have h: "Channel_open zero_mapping 7 ''demo'' (example_config\<lparr> ring_buffer_size := 100 \<rparr>) = Inl InvalidOperation"
    by (simp add: Channel_open_def is_valid_def is_power_of_two_def example_config_def)
  then have "(\<exists>e. Channel_open zero_mapping 7 ''demo'' (example_config\<lparr> ring_buffer_size := 100 \<rparr>) = Inl e
                \<and> fst (Sender_new zero_mapping 7 ''demo'' (example_config\<lparr> ring_buffer_size := 100 \<rparr>))
                  = fst (Sender_new zero_mapping 7 ''demo'' (example_config\<lparr> ring_buffer_size := 100 \<rparr>)))
           \<or> (\<exists>ch. snd_channel (fst (Sender_new zero_mapping 7 ''demo'' (example_config\<lparr> ring_buffer_size := 100 \<rparr>))) = Some ch
                  \<and> \<not> is_open ch)"
    by blast
  from send_on_unready_sender_is_ChannelClosed [OF this] h show ?thesis by blast
qed

section \<open>The frame at the read position, byte by byte\<close>

lemma upt_0_4: "[0..<4] = [0, 1, 2, 3]"
  by (simp add: upt_rec)

lemma upt_4_8: "[4..<8] = [4, 5, 6, 7]"
  by (simp add: upt_rec)

lemma read_MessageHeader_frame:
  assumes ok: "ring_ok rb (ring rg)" and big: "32 \<le> unat (rb_size rb)"
  shows "read_MessageHeader rb (ring rg) (read_index (hdr rg))
           = decode_MessageHeader (map (frame_byte rb rg) [0..<32])"
proof -
  let ?N = "unat (rb_size rb)"
  let ?pos = "unat (read_index (hdr rg)) mod ?N"
  from ok have pw: "is_power_of_two (rb_size rb)" and len: "length (ring rg) = ?N"
    by (simp_all add: ring_ok_def)
  have plt: "?pos < ?N" using ring_size_bound(1) [OF pw] by simp
  have s32: "unat sizeof_MessageHeader = 32" by (simp add: sizeof_MessageHeader_def)
  have "read_bytes rb (ring rg) (replicate 32 0) sizeof_MessageHeader (read_index (hdr rg))
          = ring_get ?N (ring rg) (replicate 32 0) ?pos 32"
    using big by (simp add: read_bytes_ring_get [OF ok] s32)
  also have "\<dots> = map (\<lambda>j. ring rg ! ring_idx ?N ?pos j) [0..<32] @ drop 32 (replicate 32 0)"
    using len plt big by (intro ring_get_eq) simp_all
  also have "map (\<lambda>j. ring rg ! ring_idx ?N ?pos j) [0..<32] = map (frame_byte rb rg) [0..<32]"
  proof (rule map_cong [OF refl])
    fix j assume "j \<in> set [0..<32]"
    then have "j \<le> ?N" using big by simp
    then have "(?pos + j) mod ?N = ring_idx ?N ?pos j" by (rule ring_idx_mod [OF plt])
    then show "ring rg ! ring_idx ?N ?pos j = frame_byte rb rg j"
      by (simp add: frame_byte_def)
  qed
  finally show ?thesis by (simp add: read_MessageHeader_def)
qed

lemma decode_frame_magic:
  "msg_magic (decode_MessageHeader (map f [0..<32])) = le_word [f 0, f 1, f 2, f 3]"
proof -
  have "take 4 (map f [0..<32]) = map f [0..<4]" by (simp add: take_map)
  then show ?thesis by (simp add: decode_MessageHeader_def upt_0_4)
qed

lemma decode_frame_size:
  "msg_size (decode_MessageHeader (map f [0..<32])) = le_word [f 4, f 5, f 6, f 7]"
proof -
  have "take 4 (drop 4 (map f [0..<32])) = map f [4..<8]" by (simp add: take_map drop_map)
  then show ?thesis by (simp add: decode_MessageHeader_def upt_4_8)
qed

lemma le_word_4:
  "(le_word [a, b, c, d] :: 'a::len word)
     = ucast a OR push_bit 8 (ucast b) OR push_bit 16 (ucast c) OR push_bit 24 (ucast d)"
  by (simp add: push_bit_or)

lemma le_bytes_4:
  "le_bytes 4 w = [ucast w, ucast (drop_bit 8 w), ucast (drop_bit 16 w), ucast (drop_bit 24 w)]"
proof -
  have "(4::nat) = Suc (Suc (Suc (Suc 0)))" by simp
  then show ?thesis by (simp only: le_bytes.simps) simp
qed

lemma le_bytes_le_word_4: "le_bytes 4 (le_word [a, b, c, d] :: u32) = [a, b, c, d]"
proof -
  let ?x = "ucast a OR push_bit 8 (ucast b) OR push_bit 16 (ucast c) OR push_bit 24 (ucast d) :: u32"
  have "(ucast ?x :: u8) = a"
    by (rule bit_word_eqI) (auto simp: bit_simps)
  moreover have "(ucast (drop_bit 8 ?x) :: u8) = b"
    by (rule bit_word_eqI) (auto simp: bit_simps dest: bit_imp_le_length)
  moreover have "(ucast (drop_bit 16 ?x) :: u8) = c"
    by (rule bit_word_eqI) (auto simp: bit_simps dest: bit_imp_le_length)
  moreover have "(ucast (drop_bit 24 ?x) :: u8) = d"
    by (rule bit_word_eqI) (auto simp: bit_simps dest: bit_imp_le_length)
  ultimately show ?thesis by (simp only: le_word_4 le_bytes_4)
qed

lemma size_bytes:
  "(ucast (le_word [a, b, c, d] :: u32) :: u64)
     = ucast a OR push_bit 8 (ucast b) OR push_bit 16 (ucast c) OR push_bit 24 (ucast d)"
  unfolding le_word_4
  by (rule bit_word_eqI) (auto simp: bit_simps dest: bit_imp_le_length)

lemma le_bytes_MAGIC: "le_bytes 4 MAGIC = [0x46, 0x49, 0x57, 0x53]"
  by (simp add: le_bytes_4 MAGIC_def drop_bit_eq_div)

lemma magic_bytes:
  "(le_word [a, b, c, d] :: u32) = MAGIC \<longleftrightarrow> a = 0x46 \<and> b = 0x49 \<and> c = 0x57 \<and> d = 0x53"
proof
  assume "(le_word [a, b, c, d] :: u32) = MAGIC"
  then have "le_bytes 4 (le_word [a, b, c, d] :: u32) = le_bytes 4 MAGIC" by (rule arg_cong)
  then have "[a, b, c, d] = [0x46, 0x49, 0x57, 0x53]"
    by (simp only: le_bytes_le_word_4 le_bytes_MAGIC)
  then show "a = 0x46 \<and> b = 0x49 \<and> c = 0x57 \<and> d = 0x53" by simp
next
  assume "a = 0x46 \<and> b = 0x49 \<and> c = 0x57 \<and> d = 0x53"
  then have "(le_word [a, b, c, d] :: u32) = le_word (le_bytes 4 MAGIC)"
    by (simp only: le_bytes_MAGIC)
  then show "(le_word [a, b, c, d] :: u32) = MAGIC" by (simp only: le_word_le_bytes32)
qed

lemma frame_fields:
  assumes "ring_ok rb (ring rg)" "32 \<le> unat (rb_size rb)"
  shows "msg_magic (read_MessageHeader rb (ring rg) (read_index (hdr rg))) = MAGIC
           \<longleftrightarrow> frame_has_magic rb rg"
    and "(ucast (msg_size (read_MessageHeader rb (ring rg) (read_index (hdr rg)))) :: size_t)
           = frame_size_field rb rg"
  by (simp_all only: read_MessageHeader_frame [OF assms] decode_frame_magic decode_frame_size
      magic_bytes size_bytes frame_has_magic_def frame_size_field_def)

section \<open>Reading into a buffer that is too small\<close>

text \<open>
  C3 (as amended). Take a ring as the constructor sets it up, of at least 32 bytes, with
  \<open>read_index < write_index\<close> (non-empty, the indices not wrapped around past \<open>2^64\<close>). If the
  ring bytes at position \<open>read_index mod size_\<close> carry the frame magic and the caller's size is
  smaller than the frame's \<open>size\<close> field read from the ring bytes that follow, \<open>try_read\<close>
  returns false, writes that \<open>size\<close> field into the in-out size, and changes neither the
  region (header fields and ring bytes) nor the caller's buffer.
\<close>

theorem try_read_buffer_too_small:
  assumes "ring_ok rb (ring rg)" and "32 \<le> unat (rb_size rb)"
    and "read_index (hdr rg) < write_index (hdr rg)"
    and "frame_has_magic rb rg"
    and "data_size < frame_size_field rb rg"
  shows "try_read rb data data_size rg = (False, data, frame_size_field rb rg, rg)"
proof -
  from assms(3) have "\<not> write_index (hdr rg) \<le> read_index (hdr rg)" by simp
  moreover have "msg_magic (read_MessageHeader rb (ring rg) (read_index (hdr rg))) = MAGIC"
    using assms(4) by (simp only: frame_fields(1) [OF assms(1,2)])
  moreover have "data_size < ucast (msg_size (read_MessageHeader rb (ring rg) (read_index (hdr rg))))"
    using assms(5) by (simp only: frame_fields(2) [OF assms(1,2)])
  ultimately show ?thesis
    by (simp add: try_read_def Let_def frame_fields(2) [OF assms(1,2)])
qed

lemma wrapping_frame_ring_bytes:
  "length wrapping_frame_ring = 64"
  "wrapping_frame_ring ! 56 = 0x46" "wrapping_frame_ring ! 57 = 0x49"
  "wrapping_frame_ring ! 58 = 0x57" "wrapping_frame_ring ! 59 = 0x53"
  "wrapping_frame_ring ! 60 = 3" "wrapping_frame_ring ! 61 = 0"
  "wrapping_frame_ring ! 62 = 0" "wrapping_frame_ring ! 63 = 0"
  by (simp_all add: wrapping_frame_ring_def nth_append)

theorem try_read_buffer_too_small_witness:
  "ring_ok (RingBuffer_new 64) (ring (region_at 96 56 wrapping_frame_ring))
   \<and> read_index (hdr (region_at 96 56 wrapping_frame_ring))
       < write_index (hdr (region_at 96 56 wrapping_frame_ring))
   \<and> unat ((56 :: u64) AND rb_mask (RingBuffer_new 64)) + 32 > unat (rb_size (RingBuffer_new 64))
   \<and> frame_has_magic (RingBuffer_new 64) (region_at 96 56 wrapping_frame_ring)
   \<and> frame_size_field (RingBuffer_new 64) (region_at 96 56 wrapping_frame_ring) = 3
   \<and> try_read (RingBuffer_new 64) [0, 0] 2 (region_at 96 56 wrapping_frame_ring)
       = (False, [0, 0], 3, region_at 96 56 wrapping_frame_ring)"
proof -
  let ?rb = "RingBuffer_new 64"
  let ?rg = "region_at 96 56 wrapping_frame_ring"
  have a1: "ring_ok ?rb (ring ?rg)"
    by (simp add: ring_ok_def RingBuffer_new_def region_at_def is_power_of_two_def
        wrapping_frame_ring_bytes)
  have a2: "32 \<le> unat (rb_size ?rb)" by (simp add: RingBuffer_new_def)
  have a3: "read_index (hdr ?rg) < write_index (hdr ?rg)" by (simp add: region_at_def)
  have a4: "frame_has_magic ?rb ?rg"
    by (simp add: frame_has_magic_def frame_byte_def RingBuffer_new_def region_at_def
        wrapping_frame_ring_bytes)
  have s: "frame_size_field ?rb ?rg = 3"
    by (simp add: frame_size_field_def frame_byte_def RingBuffer_new_def region_at_def
        wrapping_frame_ring_bytes)
  have a5: "(2 :: size_t) < frame_size_field ?rb ?rg" by (simp add: s)
  have w: "unat ((56 :: u64) AND rb_mask ?rb) + 32 > unat (rb_size ?rb)"
    by (simp add: RingBuffer_new_def)
  from try_read_buffer_too_small [OF a1 a2 a3 a4 a5, of "[0, 0]"]
  have c: "try_read ?rb [0, 0] 2 ?rg = (False, [0, 0], 3, ?rg)" by (simp only: s)
  from a1 a3 w a4 s c show ?thesis by blast
qed

text \<open>
  C3 as stated fails on a non-empty channel whose indices have wrapped: after a frame has been
  written at \<open>write_index = read_index = 2^64 - 8\<close> the ring holds one unread frame with a
  valid magic and payload size 3 (\<open>write_index - read_index = 40\<close>), but \<open>try_read\<close> with a
  2-byte buffer takes the ring for empty and returns without writing the required size.
\<close>

theorem wrapped_too_small_counterexample:
  "fst (try_write (RingBuffer_new 64) [0x41, 0x42, 0x43] 3 9
          (region_at 18446744073709551608 18446744073709551608 (replicate 64 0)))
   \<and> available_read_data (RingBuffer_new 64)
        (hdr (snd (try_write (RingBuffer_new 64) [0x41, 0x42, 0x43] 3 9
               (region_at 18446744073709551608 18446744073709551608 (replicate 64 0))))) = 40
   \<and> frame_has_magic (RingBuffer_new 64)
        (snd (try_write (RingBuffer_new 64) [0x41, 0x42, 0x43] 3 9
               (region_at 18446744073709551608 18446744073709551608 (replicate 64 0))))
   \<and> frame_size_field (RingBuffer_new 64)
        (snd (try_write (RingBuffer_new 64) [0x41, 0x42, 0x43] 3 9
               (region_at 18446744073709551608 18446744073709551608 (replicate 64 0)))) = 3
   \<and> try_read (RingBuffer_new 64) [0, 0] 2
        (snd (try_write (RingBuffer_new 64) [0x41, 0x42, 0x43] 3 9
               (region_at 18446744073709551608 18446744073709551608 (replicate 64 0))))
       = (False, [0, 0], 2,
          snd (try_write (RingBuffer_new 64) [0x41, 0x42, 0x43] 3 9
               (region_at 18446744073709551608 18446744073709551608 (replicate 64 0))))"
proof -
  let ?rb = "RingBuffer_new 64"
  let ?init = "region_at 18446744073709551608 18446744073709551608 (replicate 64 0)"
  let ?rg = "snd (try_write ?rb [0x41, 0x42, 0x43] 3 9 ?init)"
  have w: "fst (try_write ?rb [0x41, 0x42, 0x43] 3 9 ?init)"
    by (simp add: try_write_def Let_def RingBuffer_new_def region_at_def align_up_def
        sizeof_MessageHeader_def)
  have i: "read_index (hdr ?rg) = 18446744073709551608" "write_index (hdr ?rg) = 32"
    by (simp_all add: try_write_def Let_def RingBuffer_new_def region_at_def align_up_def
        sizeof_MessageHeader_def)
  have a: "available_read_data ?rb (hdr ?rg) = 40"
    by (simp add: available_read_data_def i)
  have bytes: "take 8 (drop 56 (ring ?rg)) = [0x46, 0x49, 0x57, 0x53, 3, 0, 0, 0]"
    by (simp add: try_write_def Let_def RingBuffer_new_def region_at_def align_up_def
        sizeof_MessageHeader_def write_bytes_def memcpy_def encode_MessageHeader_def
        le_bytes_4 MAGIC_def drop_bit_eq_div)
  have nth: "ring ?rg ! (56 + j) = [0x46, 0x49, 0x57, 0x53, 3, 0, 0, 0] ! j" if "j < 8" for j
  proof -
    have "take 8 (drop 56 (ring ?rg)) ! j = [0x46, 0x49, 0x57, 0x53, 3, 0, 0, 0 :: u8] ! j"
      by (simp only: bytes)
    moreover have "length (ring ?rg) = 64"
      by (simp add: try_write_def Let_def RingBuffer_new_def region_at_def align_up_def
        sizeof_MessageHeader_def write_bytes_def memcpy_def)
    ultimately show ?thesis using that by simp
  qed
  have fb: "frame_byte ?rb ?rg j = [0x46, 0x49, 0x57, 0x53, 3, 0, 0, 0] ! j" if "j < 8" for j
  proof -
    have "(unat (read_index (hdr ?rg)) mod unat (rb_size ?rb) + j) mod unat (rb_size ?rb) = 56 + j"
      using that by (simp only: i) (simp add: RingBuffer_new_def)
    then show ?thesis using nth [OF that] by (simp only: frame_byte_def)
  qed
  have m: "frame_has_magic ?rb ?rg"
    by (simp add: frame_has_magic_def fb)
  have s: "frame_size_field ?rb ?rg = 3"
    by (simp add: frame_size_field_def fb)
  have r: "try_read ?rb [0, 0] 2 ?rg = (False, [0, 0], 2, ?rg)"
    by (simp add: try_read_def Let_def i)
  from w a m s r show ?thesis by blast
qed

section \<open>A full ring\<close>

lemma try_write_full:
  assumes "rb_size rb - (write_index (hdr rg) - read_index (hdr rg)) < sizeof_MessageHeader + align_up sz 8"
  shows "try_write rb data sz now rg = (False, rg)"
  using assms by (simp add: try_write_def Let_def)




section \<open>A corrupted frame\<close>

lemma try_read_bad_magic:
  assumes "ring_ok rb (ring rg)" "32 \<le> unat (rb_size rb)" "\<not> frame_has_magic rb rg"
  shows "try_read rb data data_size rg = (False, data, data_size, rg)"
proof -
  have "msg_magic (read_MessageHeader rb (ring rg) (read_index (hdr rg))) \<noteq> MAGIC"
    using assms(3) by (simp add: frame_fields(1) [OF assms(1,2)])
  then show ?thesis by (simp add: try_read_def Let_def)
qed

lemma try_read_empty:
  assumes "read_index (hdr rg) = write_index (hdr rg)"
  shows "try_read rb data data_size rg = (False, data, data_size, rg)"
  using assms by (simp add: try_read_def Let_def)

text \<open>
  C8 (as amended). Take a ring as the constructor sets it up, of at least 32 bytes. Whenever
  the ring bytes at position \<open>read_index mod size_\<close> do not carry the frame magic (whatever the
  indices, so in particular on every non-empty channel), \<open>try_read\<close> returns false and changes
  neither the region (so \<open>read_index\<close> stays) nor the caller's buffer and size, and any number
  of further calls all return false and leave everything unchanged. No \<open>MessageCorrupted\<close> is
  surfaced: the call returns a bare flag, and flag, buffer and size are exactly what it
  returns on an empty ring.
\<close>

theorem corrupted_frame_blocks_reads:
  assumes "ring_ok rb (ring rg)" and "32 \<le> unat (rb_size rb)" and "\<not> frame_has_magic rb rg"
  shows "try_read rb data data_size rg = (False, data, data_size, rg)
       \<and> try_read_n n rb data data_size rg = (replicate n False, data, rg)
       \<and> (read_index (hdr idle) = write_index (hdr idle)
          \<longrightarrow> try_read rb data data_size idle = (False, data, data_size, idle))"
proof -
  note r = try_read_bad_magic [OF assms]
  have "try_read_n n rb data data_size rg = (replicate n False, data, rg)"
    by (induction n) (simp_all add: r)
  with r try_read_empty show ?thesis by blast
qed

theorem corrupted_frame_blocks_reads_witness:
  "ring_ok (RingBuffer_new 64) (ring (region_at 96 56 (replicate 64 0)))
   \<and> available_read_data (RingBuffer_new 64) (hdr (region_at 96 56 (replicate 64 0))) = 40
   \<and> \<not> frame_has_magic (RingBuffer_new 64) (region_at 96 56 (replicate 64 0))
   \<and> try_read (RingBuffer_new 64) [0, 0, 0] 3 (region_at 96 56 (replicate 64 0))
       = (False, [0, 0, 0], 3, region_at 96 56 (replicate 64 0))
   \<and> try_read_n 2 (RingBuffer_new 64) [0, 0, 0] 3 (region_at 96 56 (replicate 64 0))
       = (replicate 2 False, [0, 0, 0], region_at 96 56 (replicate 64 0))
   \<and> try_read (RingBuffer_new 64) [0, 0, 0] 3 (region_at 56 56 (replicate 64 0))
       = (False, [0, 0, 0], 3, region_at 56 56 (replicate 64 0))"
proof -
  let ?rb = "RingBuffer_new 64"
  let ?bad = "region_at 96 56 (replicate 64 0)"
  let ?none = "region_at 56 56 (replicate 64 0)"
  have a1: "ring_ok ?rb (ring ?bad)"
    by (simp add: ring_ok_def RingBuffer_new_def region_at_def is_power_of_two_def)
  have a2: "32 \<le> unat (rb_size ?rb)" by (simp add: RingBuffer_new_def)
  have a3: "\<not> frame_has_magic ?rb ?bad"
    by (simp add: frame_has_magic_def frame_byte_def RingBuffer_new_def region_at_def)
  have n: "available_read_data ?rb (hdr ?bad) = 40"
    by (simp add: available_read_data_def region_at_def)
  have e: "read_index (hdr ?none) = write_index (hdr ?none)" by (simp add: region_at_def)
  from corrupted_frame_blocks_reads [OF a1 a2 a3, of "[0, 0, 0]" 3 2 ?none] a1 a3 n e
  show ?thesis by blast
qed

text \<open>
  C8 as stated fails: on a 4096-byte ring whose one unread frame has magic 0, \<open>try_read\<close>
  surfaces no \<open>MessageCorrupted\<close>; it returns false with the caller's buffer and size
  untouched, which is what it returns on the same ring when it is empty.
\<close>

theorem corrupted_frame_counterexample:
  "available_read_data (RingBuffer_new 4096) (hdr (one_frame_region 4096 0 3)) = 40
   \<and> \<not> frame_has_magic (RingBuffer_new 4096) (one_frame_region 4096 0 3)
   \<and> try_read (RingBuffer_new 4096) (replicate 1024 0) 1024 (one_frame_region 4096 0 3)
       = (False, replicate 1024 0, 1024, one_frame_region 4096 0 3)
   \<and> try_read (RingBuffer_new 4096) (replicate 1024 0) 1024 (region_at 40 40 (ring (one_frame_region 4096 0 3)))
       = (False, replicate 1024 0, 1024, region_at 40 40 (ring (one_frame_region 4096 0 3)))"
proof -
  let ?rb = "RingBuffer_new 4096"
  let ?bad = "one_frame_region 4096 0 3"
  have l: "length (ring ?bad) = 4096"
    by (simp add: one_frame_region_def region_at_def)
  have a1: "ring_ok ?rb (ring ?bad)"
    by (simp add: ring_ok_def RingBuffer_new_def is_power_of_two_def l)
  have a2: "32 \<le> unat (rb_size ?rb)" by (simp add: RingBuffer_new_def)
  have b0: "frame_byte ?rb ?bad 0 = 0"
    by (simp add: frame_byte_def RingBuffer_new_def one_frame_region_def region_at_def
        encode_MessageHeader_def example_frame_header_def le_bytes_4 nth_append)
  then have a3: "\<not> frame_has_magic ?rb ?bad" by (simp add: frame_has_magic_def)
  have n: "available_read_data ?rb (hdr ?bad) = 40"
    by (simp add: available_read_data_def one_frame_region_def region_at_def)
  have e: "read_index (hdr (region_at 40 40 (ring ?bad))) = write_index (hdr (region_at 40 40 (ring ?bad)))"
    by (simp add: region_at_def)
  from n a3 try_read_bad_magic [OF a1 a2 a3] try_read_empty [OF e] show ?thesis by blast
qed

section \<open>Attaching a receiver\<close>

text \<open>
  C7 (the code departs from it). \<open>Handshake::receiver_handshake\<close> answers \<open>ChannelNotFound\<close>
  on a header whose magic is 0 and leaves it alone, but the receiver never calls it:
  \<open>Receiver::Impl::Impl\<close> attaches through \<open>Channel::open\<close>, which on a fresh zero-filled
  region initializes the header (magic, version, ring size, sender pid) and succeeds. The
  receiver then holds a channel for which \<open>is_open\<close> is true, so \<open>poll_one\<close> does not report
  \<open>ChannelNotFound\<close>; it goes on to \<open>try_read\<close>, on pages that the temporaries of
  \<open>Channel::open\<close> have already unmapped.
\<close>

theorem receiver_initializes_fresh_region:
  "hdr_magic (hdr (zero_region 4096)) = 0
   \<and> receiver_handshake pid (Some (hdr (zero_region 4096))) = (ChannelNotFound, Some (hdr (zero_region 4096)))
   \<and> Receiver_new zero_mapping pid ''demo'' example_config
       = (example_receiver,
          Some ((zero_region 4096)\<lparr> hdr := initialize_header pid zero_SharedMemoryHeader 4096 0 \<rparr>))
   \<and> hdr_magic (initialize_header pid zero_SharedMemoryHeader 4096 0) = MAGIC
   \<and> rcv_channel example_receiver = Some example_channel
   \<and> is_open example_channel
   \<and> poll_one example_receiver
         ((zero_region 4096)\<lparr> hdr := initialize_header pid zero_SharedMemoryHeader 4096 0 \<rparr>)
       = Fault"
proof -
  have a: "hdr_magic (hdr (zero_region 4096)) = 0"
    by (simp add: zero_region_def zero_SharedMemoryHeader_def)
  have b: "receiver_handshake pid (Some (hdr (zero_region 4096))) = (ChannelNotFound, Some (hdr (zero_region 4096)))"
    by (simp add: receiver_handshake_def a MAGIC_def)
  have c: "Receiver_new zero_mapping pid ''demo'' example_config
       = (example_receiver,
          Some ((zero_region 4096)\<lparr> hdr := initialize_header pid zero_SharedMemoryHeader 4096 0 \<rparr>))"
    by (simp add: Receiver_new_def Channel_open_example example_receiver_def example_channel_simps)
  have d: "hdr_magic (initialize_header pid zero_SharedMemoryHeader 4096 0) = MAGIC"
    by (simp add: initialize_header_def)
  have e: "poll_one example_receiver
            ((zero_region 4096)\<lparr> hdr := initialize_header pid zero_SharedMemoryHeader 4096 0 \<rparr>)
       = Fault"
    by (simp add: poll_one_def example_receiver_simps example_channel_simps)
  from a b c d e example_receiver_simps example_channel_simps(1) show ?thesis by blast
qed

section \<open>Filling a 4096-byte ring with 256-byte messages\<close>

lemma try_write_all_append:
  "try_write_all rb (xs @ ys) rg =
     (fst (try_write_all rb xs rg) @ fst (try_write_all rb ys (snd (try_write_all rb xs rg))),
      snd (try_write_all rb ys (snd (try_write_all rb xs rg))))"
  by (induction xs arbitrary: rg) (auto simp: split_beta Let_def)

lemma frame_256: "sizeof_MessageHeader + align_up 256 8 = (288 :: u64)"
  by (simp add: sizeof_MessageHeader_def align_up_def)

lemma free_space_4096:
  fixes w :: u64
  assumes "unat w \<le> 4096"
  shows "unat (4096 - w) = 4096 - unat w"
proof -
  from assms have "w \<le> 4096" by (simp add: word_le_nat_alt)
  then show ?thesis by (simp add: unat_sub)
qed

lemma try_write_256:
  assumes "length data = 256" "read_index (hdr rg) = 0" "unat (write_index (hdr rg)) = 288 * j"
  shows "j \<le> 13 \<Longrightarrow> fst (try_write (RingBuffer_new 4096) data (of_nat (length data)) now rg)"
    and "j \<le> 13 \<Longrightarrow> read_index (hdr (snd (try_write (RingBuffer_new 4096) data (of_nat (length data)) now rg))) = 0"
    and "j \<le> 13 \<Longrightarrow> unat (write_index (hdr (snd (try_write (RingBuffer_new 4096) data (of_nat (length data)) now rg))))
                      = 288 * Suc j"
    and "j = 14 \<Longrightarrow> try_write (RingBuffer_new 4096) data (of_nat (length data)) now rg = (False, rg)"
proof -
  let ?w = "write_index (hdr rg)"
  {
    assume j: "j \<le> 13"
    have "unat ?w \<le> 4096" using j by (simp add: assms(3))
    then have "unat (4096 - ?w) = 4096 - 288 * j"
      by (simp only: free_space_4096 assms(3))
    then have "\<not> (4096 - ?w) < (288 :: u64)"
      using j by (simp add: word_less_nat_alt)
    then have room: "\<not> rb_size (RingBuffer_new 4096) - (?w - read_index (hdr rg))
            < sizeof_MessageHeader + align_up 256 8"
      by (simp add: assms(2) RingBuffer_new_def frame_256)
    have adv: "unat (?w + 288) = 288 * Suc j"
    proof -
      have "unat ?w + unat (288 :: u64) < 2 ^ LENGTH(64)" using j by (simp add: assms(3))
      then have "unat (?w + 288) = unat ?w + unat (288 :: u64)" by (simp only: unat_add_lem)
      then show ?thesis by (simp add: assms(3))
    qed
    show "fst (try_write (RingBuffer_new 4096) data (of_nat (length data)) now rg)"
      using room by (simp add: assms(1) try_write_def Let_def)
    show "read_index (hdr (snd (try_write (RingBuffer_new 4096) data (of_nat (length data)) now rg))) = 0"
      using room by (simp add: assms(1,2) try_write_def Let_def)
    show "unat (write_index (hdr (snd (try_write (RingBuffer_new 4096) data (of_nat (length data)) now rg))))
            = 288 * Suc j"
      using room adv by (simp add: assms(1) try_write_def Let_def frame_256)
  }
  {
    assume j: "j = 14"
    have "unat ?w \<le> 4096" using j by (simp add: assms(3))
    then have "unat (4096 - ?w) = 4096 - 288 * j"
      by (simp only: free_space_4096 assms(3))
    then have "(4096 - ?w) < (288 :: u64)"
      using j by (simp add: word_less_nat_alt)
    then have "rb_size (RingBuffer_new 4096) - (?w - read_index (hdr rg))
            < sizeof_MessageHeader + align_up 256 8"
      by (simp add: assms(2) RingBuffer_new_def frame_256)
    then have "try_write (RingBuffer_new 4096) data 256 now rg = (False, rg)"
      by (rule try_write_full)
    then show "try_write (RingBuffer_new 4096) data (of_nat (length data)) now rg = (False, rg)"
      by (simp add: assms(1))
  }
qed

lemma try_write_all_fill:
  assumes "\<forall>p \<in> set ps. length (fst p) = 256" "j + length ps \<le> 14"
    and "read_index (hdr rg) = 0" "unat (write_index (hdr rg)) = 288 * j"
  shows "fst (try_write_all (RingBuffer_new 4096) ps rg) = replicate (length ps) True
       \<and> read_index (hdr (snd (try_write_all (RingBuffer_new 4096) ps rg))) = 0
       \<and> unat (write_index (hdr (snd (try_write_all (RingBuffer_new 4096) ps rg)))) = 288 * (j + length ps)"
  using assms
proof (induction ps arbitrary: j rg)
  case Nil
  then show ?case by simp
next
  case (Cons p ps)
  obtain data now where p: "p = (data, now)" by (cases p)
  from Cons.prems(1) have len: "length data = 256" and rest: "\<forall>q \<in> set ps. length (fst q) = 256"
    by (simp_all add: p)
  from Cons.prems(2) have j: "j \<le> 13" and j': "Suc j + length ps \<le> 14" by simp_all
  let ?r = "try_write (RingBuffer_new 4096) data (of_nat (length data)) now rg"
  note step = try_write_256 [OF len Cons.prems(3,4), of now]
  have ih: "fst (try_write_all (RingBuffer_new 4096) ps (snd ?r)) = replicate (length ps) True
       \<and> read_index (hdr (snd (try_write_all (RingBuffer_new 4096) ps (snd ?r)))) = 0
       \<and> unat (write_index (hdr (snd (try_write_all (RingBuffer_new 4096) ps (snd ?r))))) = 288 * (Suc j + length ps)"
    by (rule Cons.IH [OF rest j' step(2) [OF j] step(3) [OF j]])
  show ?case
    using ih step(1) [OF j] by (simp add: p split_beta Let_def)
qed

text \<open>Used on the ring directly, the writes behave as the count says: on a region with both
  indices 0, fifteen \<open>try_write\<close> calls with 256-byte payloads return true fourteen times and
  then false.\<close>

lemma fifteen_writes_fill_the_ring:
  assumes "length ps = 15" and "\<forall>p \<in> set ps. length (fst p) = 256"
    and "read_index (hdr rg) = 0" and "write_index (hdr rg) = 0"
  shows "fst (try_write_all (RingBuffer_new 4096) ps rg) = replicate 14 True @ [False]"
proof -
  let ?rb = "RingBuffer_new 4096"
  have w0: "unat (write_index (hdr rg)) = 288 * 0" by (simp add: assms(4))
  let ?xs = "take 14 ps"
  have "length (drop 14 ps) = 1" using assms(1) by simp
  then obtain q where dq: "drop 14 ps = [q]" by (cases "drop 14 ps") auto
  have ps: "ps = ?xs @ [q]" by (metis append_take_drop_id dq)
  obtain data now where q: "q = (data, now)" by (cases q)
  have lx: "length ?xs = 14" using assms(1) by simp
  have ax: "\<forall>p \<in> set ?xs. length (fst p) = 256" using assms(2) by (auto dest: in_set_takeD)
  have "q \<in> set ps" by (subst ps) simp
  with assms(2) have lq: "length data = 256" by (auto simp: q)
  have le: "0 + length ?xs \<le> 14" using lx by simp
  from try_write_all_fill [OF ax le assms(3) w0] lx
  have f: "fst (try_write_all ?rb ?xs rg) = replicate 14 True"
    and r: "read_index (hdr (snd (try_write_all ?rb ?xs rg))) = 0"
    and w: "unat (write_index (hdr (snd (try_write_all ?rb ?xs rg)))) = 288 * 14"
    by simp_all
  have l: "try_write ?rb data (of_nat (length data)) now (snd (try_write_all ?rb ?xs rg))
             = (False, snd (try_write_all ?rb ?xs rg))"
    by (rule try_write_256(4) [OF lq r w refl])
  have "fst (try_write_all ?rb (?xs @ [q]) rg) = replicate 14 True @ [False]"
    by (simp add: try_write_all_append f q l)
  then show ?thesis by (simp only: ps [symmetric])
qed

text \<open>
  C4 (the code departs from it). A \<open>Sender\<close> constructed with the 4096-byte configuration on
  a fresh zero-filled region is ready, and a 256-byte payload is within its
  \<open>max_message_size\<close>, but its first \<open>send_bytes\<close> does not succeed: the temporaries of
  \<open>Channel::open\<close> have unmapped the region, and the call reaches \<open>try_write\<close> on unmapped
  pages. On the shared-memory contents that \<open>Channel::open\<close> initialized, \<open>try_write\<close> itself
  returns true fourteen times and then false.
\<close>

theorem first_send_on_constructed_sender_faults:
  "Sender_new zero_mapping 7 ''demo'' example_config
     = (example_sender,
        Some ((zero_region 4096)\<lparr> hdr := initialize_header 7 zero_SharedMemoryHeader 4096 0 \<rparr>))
   \<and> is_ready example_sender
   \<and> (256 :: size_t) \<le> max_message_size (snd_config example_sender)
   \<and> send_bytes example_sender (replicate 256 0x41) 256 9
         ((zero_region 4096)\<lparr> hdr := initialize_header 7 zero_SharedMemoryHeader 4096 0 \<rparr>)
       = Fault
   \<and> fst (try_write_all (RingBuffer_new 4096) (replicate 15 (replicate 256 0x41, 9))
         ((zero_region 4096)\<lparr> hdr := initialize_header 7 zero_SharedMemoryHeader 4096 0 \<rparr>))
       = replicate 14 True @ [False]"
proof -
  let ?rg = "(zero_region 4096)\<lparr> hdr := initialize_header 7 zero_SharedMemoryHeader 4096 0 \<rparr>"
  have c: "Sender_new zero_mapping 7 ''demo'' example_config = (example_sender, Some ?rg)"
    by (simp add: Sender_new_def Channel_open_example example_sender_def example_channel_simps)
  have r: "is_ready example_sender" by (rule example_sender_simps)
  have m: "(256 :: size_t) \<le> max_message_size (snd_config example_sender)"
    by (simp add: example_sender_simps)
  have f: "send_bytes example_sender (replicate 256 0x41) 256 9 ?rg = Fault"
    by (simp add: send_bytes_def example_sender_simps example_channel_simps)
  have a: "length (replicate 15 (replicate 256 (0x41 :: u8), 9 :: u64)) = 15" by simp
  have b: "\<forall>p \<in> set (replicate 15 (replicate 256 (0x41 :: u8), 9 :: u64)). length (fst p) = 256" by simp
  have i: "read_index (hdr ?rg) = 0" "write_index (hdr ?rg) = 0"
    by (simp_all add: initialize_header_def)
  note t = fifteen_writes_fill_the_ring [OF a b i]
  from c r m f t show ?thesis by blast
qed

end
